theory Spec2Isabelle
  imports Complex_Main
begin

section \<open>Data model\<close>

text \<open>
  The evaluation pipeline of the repository: retrieval accuracy
  (\<^verbatim>\<open>metrics/accuracy.py\<close>), construction of the train, gallery and query
  datasets (\<^verbatim>\<open>data/train_val_datasets.py\<close>) and the score matrix
  (\<^verbatim>\<open>utils/inference/score_matrix.py\<close>).

  Every failure of the Python code is a value of \<open>error\<close>. The two \<^verbatim>\<open>assert\<close>
  statements of \<^verbatim>\<open>get_score_matrix\<close> raise Python's AssertionError; they are
  told apart by the names the specification gives them: \<open>InvalidModelState\<close> for
  \<^verbatim>\<open>assert not model.training\<close> and \<open>ShapeMismatch\<close> for
  \<^verbatim>\<open>assert len(labels) == len(out)\<close>. \<open>TorchError\<close> is the RuntimeError that a
  tensor operation raises on operands it cannot combine, \<open>KeyError\<close> the error of
  selecting a column that a data frame does not have. The other names belong to
  the taxonomy of the specification.
\<close>

datatype error =
    InvalidFoldConfig
  | InvalidModelState
  | ShapeMismatch
  | InvalidK
  | EmptyInput
  | DegenerateLabelSplit
  | TorchError
  | KeyError

text \<open>
  A two-dimensional tensor carries its shape: the number of columns is kept beside
  the rows, so that a tensor of shape \<open>[0, d]\<close> is not confused with one of shape
  \<open>[0, d']\<close>. A one-dimensional tensor is a list. \<open>wf_tensor2\<close> says that the
  rows have the declared width.
\<close>

datatype 'a tensor2 = Tensor2 (ncols: nat) (rows: "'a list list")

definition wf_tensor2 :: "'a tensor2 \<Rightarrow> bool" where
  "wf_tensor2 t = list_all (\<lambda>r. length r = ncols t) (rows t)"

text \<open>
  The value of a floating-point division of two counts. The quotient of a count by a
  positive count is kept as the exact rational (the rounding of the quotient to
  single precision is monotone and leaves \<open>0\<close>, \<open>1/2\<close> and \<open>1\<close> unchanged);
  \<open>0 / 0\<close> is NaN and \<open>s / 0\<close> for a positive \<open>s\<close> is infinite, as in
  IEEE arithmetic. \<open>fle\<close> is the comparison \<^verbatim>\<open><=\<close> of such values: every
  comparison with NaN is false.
\<close>

datatype fvalue = NaN | PosInf | Finite rat

definition true_divide :: "nat \<Rightarrow> nat \<Rightarrow> fvalue" where
  "true_divide s n =
     (if n = 0 then (if s = 0 then NaN else PosInf)
      else Finite (of_nat s / of_nat n))"

fun fle :: "fvalue \<Rightarrow> fvalue \<Rightarrow> bool" where
  "fle (Finite a) (Finite b) = (a \<le> b)"
| "fle (Finite a) PosInf = True"
| "fle PosInf PosInf = True"
| "fle _ _ = False"

section \<open>Retrieval accuracy\<close>

text \<open>
  \<^verbatim>\<open>top_all_labels == query_labels[:, None]\<close> compares a tensor of shape
  \<open>[r, k]\<close> with one of shape \<open>[q, 1]\<close>. Broadcasting makes the result \<open>[q, k]\<close>
  when \<open>r = q\<close> or \<open>r = 1\<close>, and \<open>[r, k]\<close> when \<open>q = 1\<close>; any other pair of
  row counts raises.
\<close>

definition eq_broadcast :: "'l tensor2 \<Rightarrow> 'l list \<Rightarrow> error + bool list list" where
  "eq_broadcast top_all_labels query_labels =
     (if length (rows top_all_labels) = length query_labels
      then Inr (map (\<lambda>(r, l). map (\<lambda>c. c = l) r) (zip (rows top_all_labels) query_labels))
      else if length (rows top_all_labels) = 1
      then Inr (map (\<lambda>l. map (\<lambda>c. c = l) (hd (rows top_all_labels))) query_labels)
      else if length query_labels = 1
      then Inr (map (\<lambda>r. map (\<lambda>c. c = hd query_labels) r) (rows top_all_labels))
      else Inl TorchError)"

text \<open>
  \<^verbatim>\<open>corr = torch.any(top_all_labels == query_labels[:, None], dim=1)\<close>,
  \<^verbatim>\<open>return torch.sum(corr) / len(query_labels)\<close>.
\<close>

definition top_all_accuracy :: "'l list \<Rightarrow> 'l tensor2 \<Rightarrow> error + fvalue" where
  "top_all_accuracy query_labels top_all_labels =
     (case eq_broadcast top_all_labels query_labels of
        Inl e \<Rightarrow> Inl e
      | Inr eq \<Rightarrow>
          (let corr = map (list_ex (\<lambda>b. b)) eq
           in Inr (true_divide (length (filter (\<lambda>b. b) corr)) (length query_labels))))"

text \<open>
  Modelled from the spec: \<^verbatim>\<open>top_k\<close> of \<^verbatim>\<open>utils/inference\<close>, which
  \<^verbatim>\<open>accuracy.py\<close> imports and which is not among the sources. The specification:
  for each query row, select the \<open>k\<close> gallery columns with the highest score, ties
  broken by stable column order, and gather their labels; \<open>k\<close> greater than the
  number of gallery columns, or \<open>k < 1\<close>, fails with \<open>InvalidK\<close>. It returns the
  selected scores and the selected labels, of which \<^verbatim>\<open>top_k_accuracy\<close> uses
  the second.

  \<open>sort_desc\<close> orders the (score, label) pairs of a row by descending score and
  keeps the column order among equal scores. Each score is paired with the label
  of its column.
\<close>

definition sort_desc :: "('s::linorder \<times> 'l) list \<Rightarrow> ('s \<times> 'l) list" where
  "sort_desc ps = rev (sort_key fst (rev ps))"

definition top_k :: "('s::linorder) tensor2 \<Rightarrow> 'l list \<Rightarrow> int \<Rightarrow> error + ('s tensor2 \<times> 'l tensor2)" where
  "top_k scores gallery_labels k =
     (if k < 1 \<or> int (ncols scores) < k then Inl InvalidK
      else
        (let sel = map (\<lambda>row. take (nat k) (sort_desc (zip row gallery_labels))) (rows scores)
         in Inr (Tensor2 (nat k) (map (map fst) sel), Tensor2 (nat k) (map (map snd) sel))))"

text \<open>
  \<^verbatim>\<open>_, top_k_labels = top_k(scores, gallery_labels, k)\<close>,
  \<^verbatim>\<open>return top_all_accuracy(query_labels, top_k_labels)\<close>.
\<close>

definition top_k_accuracy :: "('s::linorder) tensor2 \<Rightarrow> 'l list \<Rightarrow> 'l list \<Rightarrow> int \<Rightarrow> error + fvalue" where
  "top_k_accuracy scores query_labels gallery_labels k =
     (case top_k scores gallery_labels k of
        Inl e \<Rightarrow> Inl e
      | Inr (top_k_scores, top_k_labels) \<Rightarrow> top_all_accuracy query_labels top_k_labels)"

definition accuracy :: "('s::linorder) tensor2 \<Rightarrow> 'l list \<Rightarrow> 'l list \<Rightarrow> error + fvalue" where
  "accuracy scores query_labels gallery_labels =
     top_k_accuracy scores query_labels gallery_labels 1"

text \<open>
  The number of queries whose label is among the labels of their \<open>k\<close> best gallery
  columns: the numerator of the top-k accuracy, written out for the statements
  about it.
\<close>

definition top_k_hits :: "('s::linorder) list list \<Rightarrow> 'l list \<Rightarrow> 'l list \<Rightarrow> nat \<Rightarrow> nat" where
  "top_k_hits score_rows query_labels gallery_labels k =
     length (filter (\<lambda>(l, row). l \<in> snd ` set (take k (sort_desc (zip row gallery_labels))))
               (zip query_labels score_rows))"

section \<open>Train, gallery and query datasets\<close>

text \<open>
  A data frame has named columns and a list of records; a record gives the value of
  each column. Selecting a column that the frame does not have raises.
\<close>

record 'v data_frame =
  columns :: "string list"
  records :: "(string \<Rightarrow> 'v) list"

definition column :: "'v data_frame \<Rightarrow> string \<Rightarrow> error + 'v list" where
  "column d key =
     (if key \<in> set (columns d) then Inr (map (\<lambda>r. r key) (records d)) else Inl KeyError)"

text \<open>\<^verbatim>\<open>Series.unique()\<close>: the distinct values in order of first appearance.\<close>

fun unique :: "'v list \<Rightarrow> 'v list" where
  "unique [] = []"
| "unique (x # xs) = x # filter (\<lambda>y. y \<noteq> x) (unique xs)"

text \<open>
  \<^verbatim>\<open>{label: label_idx for label_idx, label in enumerate(labels)}\<close>: the dictionary
  is filled in the order of the enumeration, a later entry replacing an earlier one
  with the same key.
\<close>

definition enumerate_dict :: "'v list \<Rightarrow> ('v \<rightharpoonup> nat)" where
  "enumerate_dict labels =
     foldl (\<lambda>m (label_idx, label). m(label \<mapsto> label_idx)) Map.empty (enumerate 0 labels)"

text \<open>
  What the specification asks of a label-to-index map over a list of labels: it is
  the dictionary of the distinct labels in order of first appearance, it is defined
  on exactly these labels, no two labels share an index, and the indices are the
  integers below the number of distinct labels.
\<close>

definition dense_label_map :: "('v \<rightharpoonup> nat) \<Rightarrow> 'v list \<Rightarrow> bool" where
  "dense_label_map f labels \<longleftrightarrow>
     f = enumerate_dict (unique labels) \<and>
     dom f = set labels \<and>
     inj_on f (set labels) \<and>
     ran f = {0..<card (set labels)}"

text \<open>
  Modelled from the spec: \<^verbatim>\<open>DataFrameDataset\<close> of
  \<^verbatim>\<open>data/data_frame_dataset.py\<close>, which is not among the sources. The
  specification: a view constructed from \<open>(records, label_key, item_key,
  label_to_int, transform)\<close>, whose label-to-index map is supplied from outside
  and is immutable for the lifetime of the view. The model keeps the arguments of
  the constructor.
\<close>

record ('v, 'x) DataFrameDataset =
  ds_df :: "'v data_frame"
  ds_label_key :: string
  ds_image_key :: string
  ds_label_to_int :: "'v \<rightharpoonup> nat"
  ds_transform :: "('v \<Rightarrow> 'x) option"

text \<open>
  \<^verbatim>\<open>get_train_val_datasets\<close>. Reading the CSV file and the two split functions
  of \<^verbatim>\<open>utils/data\<close> are not among the sources; they are the parameters
  \<open>read_csv\<close>, \<open>k_fold_split\<close> and \<open>gallery_query_split\<close>, each of which may
  fail. The steps follow the source: read, split by label, split the validation
  frame into gallery and query, build the train dataset with the dictionary of the
  train labels, build one dictionary of the validation labels and give it to both
  the gallery and the query dataset.
\<close>

definition get_train_val_datasets ::
  "(string \<Rightarrow> error + 'v data_frame) \<Rightarrow>
   ('v data_frame \<Rightarrow> int \<Rightarrow> int \<Rightarrow> int \<Rightarrow> string \<Rightarrow> error + ('v data_frame \<times> 'v data_frame)) \<Rightarrow>
   ('v data_frame \<Rightarrow> int \<Rightarrow> int \<Rightarrow> string \<Rightarrow> error + ('v data_frame \<times> 'v data_frame)) \<Rightarrow>
   string \<Rightarrow> string \<Rightarrow> string \<Rightarrow> int \<Rightarrow> int \<Rightarrow> int \<Rightarrow> int \<Rightarrow> int \<Rightarrow>
   ('v \<Rightarrow> 'x) option \<Rightarrow> ('v \<Rightarrow> 'x) option \<Rightarrow>
   error + (('v, 'x) DataFrameDataset \<times> ('v, 'x) DataFrameDataset \<times> ('v, 'x) DataFrameDataset)" where
  "get_train_val_datasets read_csv k_fold_split gallery_query_split
      data_csv_file label_key image_key num_folds val_fold k_fold_seed n_refs rand_ref_seed
      tfm_train tfm_val =
     (case read_csv data_csv_file of
        Inl e \<Rightarrow> Inl e
      | Inr df \<Rightarrow>
     (case k_fold_split df num_folds val_fold k_fold_seed label_key of
        Inl e \<Rightarrow> Inl e
      | Inr (df_train, df_val) \<Rightarrow>
     (case gallery_query_split df_val n_refs rand_ref_seed label_key of
        Inl e \<Rightarrow> Inl e
      | Inr (df_gal, df_quer) \<Rightarrow>
     (case column df_train label_key of
        Inl e \<Rightarrow> Inl e
      | Inr train_labels \<Rightarrow>
     (let ds_train = \<lparr>ds_df = df_train, ds_label_key = label_key, ds_image_key = image_key,
                       ds_label_to_int = enumerate_dict (unique train_labels),
                       ds_transform = tfm_train\<rparr>
      in
     (case column df_val label_key of
        Inl e \<Rightarrow> Inl e
      | Inr val_labels \<Rightarrow>
     (let label_to_int_val = enumerate_dict (unique val_labels);
          ds_gal = \<lparr>ds_df = df_gal, ds_label_key = label_key, ds_image_key = image_key,
                     ds_label_to_int = label_to_int_val, ds_transform = tfm_val\<rparr>;
          ds_quer = \<lparr>ds_df = df_quer, ds_label_key = label_key, ds_image_key = image_key,
                      ds_label_to_int = label_to_int_val, ds_transform = tfm_val\<rparr>
      in Inr (ds_train, ds_gal, ds_quer))))))))"

text \<open>
  Modelled from the spec: \<^verbatim>\<open>label_based_k_fold_trainval_split\<close> of
  \<^verbatim>\<open>utils/data\<close>, which is not among the sources. The specification: collect
  the distinct labels, shuffle them deterministically using the seed, assign the
  labels to folds by contiguous slicing into \<open>num_folds\<close> near-equal groups; the
  records whose label falls in fold \<open>val_fold\<close> are the validation records, all
  others the train records. It fails with \<open>InvalidFoldConfig\<close> if
  \<open>num_folds < 2\<close>, if \<open>val_fold\<close> is out of range, or if there are fewer
  distinct labels than folds. The seeded shuffle is the parameter \<open>shuffle\<close>.

  \<open>fold_slice xs k i\<close> is group \<open>i\<close> of the contiguous slicing of \<open>xs\<close> into
  \<open>k\<close> groups whose sizes differ by at most one, the larger groups first.
\<close>

definition fold_slice :: "'v list \<Rightarrow> nat \<Rightarrow> nat \<Rightarrow> 'v list" where
  "fold_slice xs k i =
     (let n = length xs;
          start = i * (n div k) + min i (n mod k);
          size = n div k + (if i < n mod k then 1 else 0)
      in take size (drop start xs))"

definition label_set :: "'v data_frame \<Rightarrow> string \<Rightarrow> 'v set" where
  "label_set d label_key = (\<lambda>r. r label_key) ` set (records d)"

definition label_based_k_fold_trainval_split ::
  "(int \<Rightarrow> 'v list \<Rightarrow> 'v list) \<Rightarrow> 'v data_frame \<Rightarrow> int \<Rightarrow> int \<Rightarrow> int \<Rightarrow> string \<Rightarrow>
   error + ('v data_frame \<times> 'v data_frame)" where
  "label_based_k_fold_trainval_split shuffle d num_folds val_fold seed label_key =
     (case column d label_key of
        Inl e \<Rightarrow> Inl e
      | Inr labels \<Rightarrow>
          (let distinct_labels = unique labels in
           if num_folds < 2 \<or> val_fold < 0 \<or> num_folds \<le> val_fold
              \<or> int (length distinct_labels) < num_folds
           then Inl InvalidFoldConfig
           else
             (let val_labels = fold_slice (shuffle seed distinct_labels) (nat num_folds) (nat val_fold);
                  train_records = filter (\<lambda>r. r label_key \<notin> set val_labels) (records d);
                  val_records = filter (\<lambda>r. r label_key \<in> set val_labels) (records d)
              in Inr (d\<lparr>records := train_records\<rparr>, d\<lparr>records := val_records\<rparr>))))"

section \<open>Score matrix\<close>

text \<open>
  A model has the flag \<^verbatim>\<open>training\<close> and maps a batch of images to a tensor of
  embeddings, one row per embedding. A data loader yields its batches in order,
  each a pair of an image batch and a tensor of labels. The entries of an embedding
  are of any type with zero, addition and multiplication; no law of arithmetic is
  assumed of them.
\<close>

record ('i, 'a) model =
  training :: bool
  forward :: "'i \<Rightarrow> 'a tensor2"

type_synonym ('i, 'l) data_loader = "('i \<times> 'l list) list"

text \<open>
  What \<^verbatim>\<open>get_score_matrix\<close> does to its collaborators, in order: taking a batch
  from the gallery loader, calling the aggregation function on a pair of gallery
  embeddings and labels, taking a batch from the query loader.
\<close>

datatype ('i, 'l, 'a) event =
    Gallery_batch 'i "'l list"
  | Aggregate "'a tensor2" "'l list"
  | Query_batch 'i "'l list"

text \<open>
  \<^verbatim>\<open>torch.cat\<close> along the first dimension: it raises on an empty list and on
  tensors of different widths.
\<close>

definition cat_tensor2 :: "'a tensor2 list \<Rightarrow> error + 'a tensor2" where
  "cat_tensor2 ts =
     (case ts of
        [] \<Rightarrow> Inl TorchError
      | t # _ \<Rightarrow>
          if list_all (\<lambda>u. ncols u = ncols t) ts
          then Inr (Tensor2 (ncols t) (concat (map rows ts)))
          else Inl TorchError)"

definition cat_tensor1 :: "'l list list \<Rightarrow> error + 'l list" where
  "cat_tensor1 vs = (if vs = [] then Inl TorchError else Inr (concat vs))"

definition dot :: "('a::{zero,plus,times}) list \<Rightarrow> 'a list \<Rightarrow> 'a" where
  "dot u v = foldl (+) 0 (map (\<lambda>(x, y). x * y) (zip u v))"

text \<open>
  \<^verbatim>\<open>torch.matmul(q_embs, gal_embeddings.T)\<close>: entry \<open>(i, j)\<close> is the inner
  product of row \<open>i\<close> of the query embeddings and row \<open>j\<close> of the gallery
  embeddings; the two embedding widths must agree.
\<close>

definition score_row :: "('a::{zero,plus,times}) tensor2 \<Rightarrow> 'a list \<Rightarrow> 'a list" where
  "score_row gal_embeddings u = map (dot u) (rows gal_embeddings)"

definition matmul_transposed ::
  "('a::{zero,plus,times}) tensor2 \<Rightarrow> 'a tensor2 \<Rightarrow> error + 'a tensor2" where
  "matmul_transposed q_embs gal_embeddings =
     (if ncols q_embs = ncols gal_embeddings
      then Inr (Tensor2 (length (rows gal_embeddings)) (map (score_row gal_embeddings) (rows q_embs)))
      else Inl TorchError)"

text \<open>
  \<^verbatim>\<open>model(imgs)\<close> when no \<^verbatim>\<open>get_embeddings_fn\<close> is given,
  \<^verbatim>\<open>get_embeddings_fn(model, imgs)\<close> otherwise.
\<close>

definition get_embeddings ::
  "(('i, 'a) model \<Rightarrow> 'i \<Rightarrow> 'a tensor2) option \<Rightarrow> ('i, 'a) model \<Rightarrow> 'i \<Rightarrow> 'a tensor2" where
  "get_embeddings get_embeddings_fn m imgs =
     (case get_embeddings_fn of None \<Rightarrow> forward m imgs | Some f \<Rightarrow> f m imgs)"

text \<open>
  The loop over the gallery loader. The state is the two accumulators and the
  events so far; the loop stops at the first batch whose label count differs from
  its embedding count.
\<close>

fun gallery_loop ::
  "('i, 'a) model \<Rightarrow> (('i, 'a) model \<Rightarrow> 'i \<Rightarrow> 'a tensor2) option \<Rightarrow> ('i, 'l) data_loader \<Rightarrow>
   'a tensor2 list \<times> 'l list list \<times> ('i, 'l, 'a) event list \<Rightarrow>
   ('i, 'l, 'a) event list \<times> (error + 'a tensor2 list \<times> 'l list list)" where
  "gallery_loop m get_embeddings_fn [] (gal_embeddings, gal_labels, evs) =
     (evs, Inr (gal_embeddings, gal_labels))"
| "gallery_loop m get_embeddings_fn ((imgs, labels) # batches) (gal_embeddings, gal_labels, evs) =
     (let out = get_embeddings get_embeddings_fn m imgs;
          evs' = evs @ [Gallery_batch imgs labels]
      in if length labels = length (rows out)
         then gallery_loop m get_embeddings_fn batches
                (gal_embeddings @ [out], gal_labels @ [labels], evs')
         else (evs', Inl ShapeMismatch))"

text \<open>
  The loop over the query loader: the scores of a batch are computed as soon as
  the batch is embedded. The source has no assertion here.
\<close>

fun query_loop ::
  "('i, 'a::{zero,plus,times}) model \<Rightarrow> (('i, 'a) model \<Rightarrow> 'i \<Rightarrow> 'a tensor2) option \<Rightarrow>
   'a tensor2 \<Rightarrow> ('i, 'l) data_loader \<Rightarrow>
   'a tensor2 list \<times> 'l list list \<times> ('i, 'l, 'a) event list \<Rightarrow>
   ('i, 'l, 'a) event list \<times> (error + 'a tensor2 list \<times> 'l list list)" where
  "query_loop m get_embeddings_fn gal_embeddings [] (scores, quer_labels, evs) =
     (evs, Inr (scores, quer_labels))"
| "query_loop m get_embeddings_fn gal_embeddings ((imgs, labels) # batches) (scores, quer_labels, evs) =
     (let q_embs = get_embeddings get_embeddings_fn m imgs;
          evs' = evs @ [Query_batch imgs labels]
      in case matmul_transposed q_embs gal_embeddings of
           Inl e \<Rightarrow> (evs', Inl e)
         | Inr s \<Rightarrow>
             query_loop m get_embeddings_fn gal_embeddings batches
               (scores @ [s], quer_labels @ [labels], evs'))"

text \<open>
  \<^verbatim>\<open>get_score_matrix\<close>. The device does not change a value and is left out.
  The result is the list of events together with either the error raised or the
  triple \<open>(scores, quer_labels, gal_labels)\<close>.
\<close>

definition get_score_matrix ::
  "('i, 'a::{zero,plus,times}) model \<Rightarrow> ('i, 'l) data_loader \<Rightarrow> ('i, 'l) data_loader \<Rightarrow>
   ('a tensor2 \<Rightarrow> 'l list \<Rightarrow> 'a tensor2 \<times> 'l list) option \<Rightarrow>
   (('i, 'a) model \<Rightarrow> 'i \<Rightarrow> 'a tensor2) option \<Rightarrow>
   ('i, 'l, 'a) event list \<times> (error + 'a tensor2 \<times> 'l list \<times> 'l list)" where
  "get_score_matrix m dl_gal dl_quer agg_gal_fn get_embeddings_fn =
     (if training m then ([], Inl InvalidModelState)
      else
        (case gallery_loop m get_embeddings_fn dl_gal ([], [], []) of
           (evs, Inl e) \<Rightarrow> (evs, Inl e)
         | (evs, Inr (gal_embeddings_list, gal_labels_list)) \<Rightarrow>
        (case cat_tensor2 gal_embeddings_list of
           Inl e \<Rightarrow> (evs, Inl e)
         | Inr gal_embeddings \<Rightarrow>
        (case cat_tensor1 gal_labels_list of
           Inl e \<Rightarrow> (evs, Inl e)
         | Inr gal_labels \<Rightarrow>
        (let (gal_embeddings', gal_labels', evs') =
               (case agg_gal_fn of
                  None \<Rightarrow> (gal_embeddings, gal_labels, evs)
                | Some agg \<Rightarrow>
                    (let (e, l) = agg gal_embeddings gal_labels
                     in (e, l, evs @ [Aggregate gal_embeddings gal_labels])))
         in
        (case query_loop m get_embeddings_fn gal_embeddings' dl_quer ([], [], evs') of
           (evs'', Inl e) \<Rightarrow> (evs'', Inl e)
         | (evs'', Inr (scores_list, quer_labels_list)) \<Rightarrow>
        (case cat_tensor2 scores_list of
           Inl e \<Rightarrow> (evs'', Inl e)
         | Inr scores \<Rightarrow>
        (case cat_tensor1 quer_labels_list of
           Inl e \<Rightarrow> (evs'', Inl e)
         | Inr quer_labels \<Rightarrow> (evs'', Inr (scores, quer_labels, gal_labels'))))))))))"

section \<open>Properties of the retrieval accuracy\<close>

lemma list_ex_eq_mem: "list_ex (\<lambda>b. b) (map (\<lambda>c. c = l) r) = (l \<in> set r)"
  by (auto simp: list_ex_iff)

lemma length_filter_zip_swap:
  "length (filter (\<lambda>(r, l). P l r) (zip xs ys)) = length (filter (\<lambda>(l, r). P l r) (zip ys xs))"
proof -
  have "zip xs ys = map (\<lambda>(l, r). (r, l)) (zip ys xs)"
    by (rule zip_commute)
  then have "filter (\<lambda>(r, l). P l r) (zip xs ys)
      = map (\<lambda>(l, r). (r, l)) (filter (\<lambda>(l, r). P l r) (zip ys xs))"
    by (simp add: filter_map comp_def case_prod_unfold)
  then show ?thesis by simp
qed

lemma length_filter_id_map: "length (filter (\<lambda>b. b) (map f xs)) = length (filter f xs)"
  by (induction xs) auto

lemma top_all_accuracy_aligned:
  assumes "length (rows t) = length q"
  shows "top_all_accuracy q t =
    Inr (true_divide (length (filter (\<lambda>(l, r). l \<in> set r) (zip q (rows t)))) (length q))"
proof -
  have "length (filter (\<lambda>b. b) (map (list_ex (\<lambda>b. b)) (map (\<lambda>(r, l). map (\<lambda>c. c = l) r) (zip (rows t) q))))
      = length (filter (\<lambda>(r, l). l \<in> set r) (zip (rows t) q))"
    by (simp add: length_filter_id_map comp_def case_prod_unfold list_ex_eq_mem)
  also have "\<dots> = length (filter (\<lambda>(l, r). l \<in> set r) (zip q (rows t)))"
    by (rule length_filter_zip_swap)
  finally show ?thesis
    using assms by (simp add: top_all_accuracy_def eq_broadcast_def)
qed

lemma true_divide_unit:
  assumes "0 < n" "c \<le> n"
  shows "\<exists>a. true_divide c n = Finite a \<and> a = of_nat c / of_nat n \<and> 0 \<le> a \<and> a \<le> 1"
  using assms by (simp add: true_divide_def)

text \<open>
  Claim C5. For a non-empty vector of query labels with one row of candidate labels
  per query, \<^verbatim>\<open>top_all_accuracy\<close> returns the number of queries whose label
  occurs among the candidate labels of that query, divided by the number of queries;
  the value lies between 0 and 1. For query labels \<open>[A, B]\<close> and candidate rows
  \<open>[[A, C], [C, D]]\<close> with four different labels the value is one half.
\<close>

theorem top_all_accuracy_fraction:
  "(query_labels \<noteq> [] \<and> length (rows top_all_labels) = length query_labels \<longrightarrow>
      (\<exists>a. top_all_accuracy query_labels top_all_labels = Inr (Finite a) \<and>
            a = of_nat (length (filter (\<lambda>(l, r). l \<in> set r) (zip query_labels (rows top_all_labels))))
                  / of_nat (length query_labels) \<and>
            0 \<le> a \<and> a \<le> 1)) \<and>
   (distinct [A, B, C, D] \<longrightarrow>
      top_all_accuracy [A, B] (Tensor2 2 [[A, C], [C, D]]) = Inr (Finite (1 / 2)))"
proof (intro conjI impI)
  assume h: "query_labels \<noteq> [] \<and> length (rows top_all_labels) = length query_labels"
  let ?c = "length (filter (\<lambda>(l, r). l \<in> set r) (zip query_labels (rows top_all_labels)))"
  have "?c \<le> length (zip query_labels (rows top_all_labels))"
    by (rule length_filter_le)
  then have "?c \<le> length query_labels" by simp
  moreover have "0 < length query_labels" using h by simp
  ultimately show "\<exists>a. top_all_accuracy query_labels top_all_labels = Inr (Finite a) \<and>
            a = of_nat ?c / of_nat (length query_labels) \<and> 0 \<le> a \<and> a \<le> 1"
    using h true_divide_unit[of "length query_labels" ?c]
    by (simp add: top_all_accuracy_aligned)
next
  assume "distinct [A, B, C, D]"
  then show "top_all_accuracy [A, B] (Tensor2 2 [[A, C], [C, D]]) = Inr (Finite (1 / 2))"
    by (auto simp: top_all_accuracy_aligned true_divide_def)
qed

theorem top_all_accuracy_fraction_witness:
  "[1, 2, 3::int] \<noteq> [] \<and> length (rows (Tensor2 2 [[1, 5], [4, 4], [3, 3::int]])) = length [1, 2, 3::int] \<and>
   top_all_accuracy [1, 2, 3::int] (Tensor2 2 [[1, 5], [4, 4], [3, 3]]) = Inr (Finite (2 / 3)) \<and>
   distinct [0, 1, 2, 3::int] \<and>
   top_all_accuracy [0, 1::int] (Tensor2 2 [[0, 2], [2, 3]]) = Inr (Finite (1 / 2))"
  using top_all_accuracy_fraction[of "[1, 2, 3::int]" "Tensor2 2 [[1, 5], [4, 4], [3, 3]]" "0::int" "1::int" "2::int" "3::int"]
  by (auto simp: field_simps)

lemma corr_aligned_cong:
  assumes "list_all2 (\<lambda>r r'. set r = set r') rs rs'"
  shows "map (\<lambda>(r, l). l \<in> set r) (zip rs q) = map (\<lambda>(r, l). l \<in> set r) (zip rs' q)"
  using assms
proof (induction rs rs' arbitrary: q rule: list_all2_induct)
  case Nil
  then show ?case by simp
next
  case (Cons r rs r' rs')
  then show ?case by (cases q) auto
qed

lemma corr_column_cong:
  assumes "list_all2 (\<lambda>r r'. set r = set r') rs rs'"
  shows "map (\<lambda>r. l \<in> set r) rs = map (\<lambda>r. l \<in> set r) rs'"
  using assms by (induction rs rs' rule: list_all2_induct) auto

lemma top_all_accuracy_unfold:
  "top_all_accuracy q t =
     (if length (rows t) = length q then
        Inr (true_divide (length (filter (\<lambda>b. b) (map (\<lambda>(r, l). l \<in> set r) (zip (rows t) q)))) (length q))
      else if length (rows t) = 1 then
        Inr (true_divide (length (filter (\<lambda>b. b) (map (\<lambda>l. l \<in> set (hd (rows t))) q))) (length q))
      else if length q = 1 then
        Inr (true_divide (length (filter (\<lambda>b. b) (map (\<lambda>r. hd q \<in> set r) (rows t)))) (length q))
      else Inl TorchError)"
  by (simp add: top_all_accuracy_def eq_broadcast_def comp_def case_prod_unfold list_ex_eq_mem)

text \<open>
  Claim C10. \<^verbatim>\<open>top_all_accuracy\<close> depends on a row of candidate labels only
  through the set of its labels: two candidate tensors with the same number of rows
  whose corresponding rows have the same sets of labels (a row permuted, or a label
  repeated in a row) give the same result for every vector of query labels.
\<close>

theorem top_all_accuracy_membership_only:
  assumes "list_all2 (\<lambda>r r'. set r = set r') (rows top_all_labels) (rows top_all_labels')"
  shows "top_all_accuracy query_labels top_all_labels = top_all_accuracy query_labels top_all_labels'"
proof -
  let ?rs = "rows top_all_labels" and ?rs' = "rows top_all_labels'"
  have len: "length ?rs = length ?rs'"
    using assms by (rule list_all2_lengthD)
  have a: "map (\<lambda>(r, l). l \<in> set r) (zip ?rs query_labels)
      = map (\<lambda>(r, l). l \<in> set r) (zip ?rs' query_labels)"
    by (rule corr_aligned_cong[OF assms])
  have c: "map (\<lambda>r. hd query_labels \<in> set r) ?rs = map (\<lambda>r. hd query_labels \<in> set r) ?rs'"
    by (rule corr_column_cong[OF assms])
  show ?thesis
  proof (cases "length ?rs = 1")
    case True
    then have "set (hd ?rs) = set (hd ?rs')"
      using assms len by (cases ?rs; cases ?rs') auto
    then show ?thesis
      unfolding top_all_accuracy_unfold[of query_labels top_all_labels]
        top_all_accuracy_unfold[of query_labels top_all_labels'] a c len
      by simp
  next
    case False
    then show ?thesis
      unfolding top_all_accuracy_unfold[of query_labels top_all_labels]
        top_all_accuracy_unfold[of query_labels top_all_labels'] a c len
      by simp
  qed
qed

theorem top_all_accuracy_membership_only_witness:
  "list_all2 (\<lambda>r r'. set r = set r') (rows (Tensor2 2 [[1, 5], [4, 3::int]])) (rows (Tensor2 3 [[5, 1, 5], [3, 3, 4]])) \<and>
   top_all_accuracy [1, 2::int] (Tensor2 2 [[1, 5], [4, 3]]) = top_all_accuracy [1, 2::int] (Tensor2 3 [[5, 1, 5], [3, 3, 4]]) \<and>
   top_all_accuracy [1, 2::int] (Tensor2 2 [[1, 5], [4, 3]]) = Inr (Finite (1 / 2))"
proof -
  have h: "list_all2 (\<lambda>r r'. set r = set r') (rows (Tensor2 2 [[1, 5], [4, 3::int]])) (rows (Tensor2 3 [[5, 1, 5], [3, 3, 4]]))"
    by auto
  have "top_all_accuracy [1, 2::int] (Tensor2 2 [[1, 5], [4, 3]]) = Inr (Finite (1 / 2))"
    by (simp add: top_all_accuracy_def eq_broadcast_def true_divide_def)
  with h top_all_accuracy_membership_only[OF h, of "[1, 2::int]"] show ?thesis
    by simp
qed

lemma top_all_accuracy_Nil:
  "top_all_accuracy [] t = (if length (rows t) \<le> 1 then Inr NaN else Inl TorchError)"
  by (cases "rows t") (auto simp: top_all_accuracy_def eq_broadcast_def true_divide_def)

lemma top_k_accuracy_Nil:
  "top_k_accuracy scores [] gallery_labels k =
     (if k < 1 \<or> int (ncols scores) < k then Inl InvalidK
      else if length (rows scores) \<le> 1 then Inr NaN else Inl TorchError)"
  by (simp add: top_k_accuracy_def top_k_def top_all_accuracy_Nil Let_def)

text \<open>
  Claim C7, as amended. On an empty vector of query labels no accuracy operation
  fails with \<open>EmptyInput\<close>. \<^verbatim>\<open>top_all_accuracy\<close> returns NaN, the value of
  \<open>0 / 0\<close>, when the candidate tensor has no rows; \<^verbatim>\<open>top_k_accuracy\<close> returns
  NaN on a score matrix without rows for every \<open>k\<close> from 1 to the number of
  gallery columns, and \<^verbatim>\<open>accuracy\<close> does when there is at least one gallery
  column.
\<close>

theorem accuracy_empty_queries_nan:
  "top_all_accuracy [] top_all_labels \<noteq> Inl EmptyInput \<and>
   top_k_accuracy scores [] gallery_labels k \<noteq> Inl EmptyInput \<and>
   accuracy scores [] gallery_labels \<noteq> Inl EmptyInput \<and>
   (rows top_all_labels = [] \<longrightarrow> top_all_accuracy [] top_all_labels = Inr NaN) \<and>
   (rows scores = [] \<and> 1 \<le> k \<and> k \<le> int (ncols scores) \<longrightarrow>
      top_k_accuracy scores [] gallery_labels k = Inr NaN) \<and>
   (rows scores = [] \<and> 1 \<le> ncols scores \<longrightarrow> accuracy scores [] gallery_labels = Inr NaN)"
  by (auto simp: accuracy_def top_k_accuracy_Nil top_all_accuracy_Nil)

theorem accuracy_empty_queries_nan_witness:
  "rows (Tensor2 2 ([]::int list list)) = [] \<and>
   top_all_accuracy ([]::int list) (Tensor2 2 []) = Inr NaN \<and>
   rows (Tensor2 3 ([]::rat list list)) = [] \<and> (1::int) \<le> 2 \<and> (2::int) \<le> int (ncols (Tensor2 3 ([]::rat list list))) \<and>
   top_k_accuracy (Tensor2 3 ([]::rat list list)) ([]::int list) [4, 5, 6] 2 = Inr NaN \<and>
   1 \<le> ncols (Tensor2 3 ([]::rat list list)) \<and>
   accuracy (Tensor2 3 ([]::rat list list)) ([]::int list) [4, 5, 6] = Inr NaN"
  using accuracy_empty_queries_nan[of "Tensor2 2 ([]::int list list)" "Tensor2 3 ([]::rat list list)" "[4, 5, 6::int]" 2]
  by simp

text \<open>
  The statement that the empty query set fails with \<open>EmptyInput\<close> does not hold of
  the code: with no query label and a candidate tensor of shape \<open>[0, 2]\<close> the
  division \<open>0 / 0\<close> is carried out and its value NaN is returned.
\<close>

theorem top_all_accuracy_empty_counterexample:
  "top_all_accuracy ([]::int list) (Tensor2 2 []) = Inr NaN \<and>
   top_all_accuracy ([]::int list) (Tensor2 2 []) \<noteq> Inl EmptyInput"
  by (simp add: top_all_accuracy_def eq_broadcast_def true_divide_def)

lemma set_sort_desc: "set (sort_desc ps) = set ps"
  by (simp add: sort_desc_def)

lemma length_sort_desc: "length (sort_desc ps) = length ps"
  by (simp add: sort_desc_def)

lemma length_filter_mono:
  assumes "\<And>x. x \<in> set xs \<Longrightarrow> P x \<Longrightarrow> Q x"
  shows "length (filter P xs) \<le> length (filter Q xs)"
  using assms by (induction xs) auto

lemma top_k_accuracy_aligned:
  assumes "length (rows scores) = length query_labels" "1 \<le> k" "k \<le> int (ncols scores)"
  shows "top_k_accuracy scores query_labels gallery_labels k =
     Inr (true_divide (top_k_hits (rows scores) query_labels gallery_labels (nat k)) (length query_labels))"
proof -
  let ?sel = "\<lambda>row. map snd (take (nat k) (sort_desc (zip row gallery_labels)))"
  have tk: "top_k scores gallery_labels k =
      Inr (Tensor2 (nat k) (map (\<lambda>row. map fst (take (nat k) (sort_desc (zip row gallery_labels)))) (rows scores)),
           Tensor2 (nat k) (map ?sel (rows scores)))"
    using assms(2,3) by (simp add: top_k_def Let_def comp_def)
  have "zip query_labels (map ?sel (rows scores))
      = map (\<lambda>(l, row). (l, ?sel row)) (zip query_labels (rows scores))"
    by (simp add: zip_map2)
  then have "length (filter (\<lambda>(l, r). l \<in> set r) (zip query_labels (map ?sel (rows scores))))
      = top_k_hits (rows scores) query_labels gallery_labels (nat k)"
    by (simp add: top_k_hits_def filter_map comp_def case_prod_unfold)
  then show ?thesis
    using assms(1) by (simp add: top_k_accuracy_def tk top_all_accuracy_aligned)
qed

lemma top_k_hits_mono:
  assumes "k \<le> k'"
  shows "top_k_hits rs q g k \<le> top_k_hits rs q g k'"
  unfolding top_k_hits_def
proof (rule length_filter_mono)
  fix x :: "'b \<times> 'a list"
  assume "case x of (l, row) \<Rightarrow> l \<in> snd ` set (take k (sort_desc (zip row g)))"
  moreover have "set (take k ps) \<subseteq> set (take k' ps)" for ps :: "('a \<times> 'b) list"
    using assms by (rule set_take_subset_set_take)
  ultimately show "case x of (l, row) \<Rightarrow> l \<in> snd ` set (take k' (sort_desc (zip row g)))"
    by (auto simp: case_prod_unfold)
qed

lemma top_k_hits_le: "top_k_hits rs q g k \<le> length q"
proof -
  have "top_k_hits rs q g k \<le> length (zip q rs)"
    unfolding top_k_hits_def by (rule length_filter_le)
  then show ?thesis by simp
qed

lemma top_k_hits_full:
  assumes "list_all (\<lambda>r. length r = length g) rs" "length rs = length q" "set q \<subseteq> set g"
  shows "top_k_hits rs q g (length g) = length q"
proof -
  have "l \<in> snd ` set (take (length g) (sort_desc (zip row g)))"
    if "(l, row) \<in> set (zip q rs)" for l row
  proof -
    from that have "l \<in> set q" "row \<in> set rs"
      by (auto dest: set_zip_leftD set_zip_rightD)
    with assms have lg: "l \<in> set g" and len: "length row = length g"
      by (auto simp: list_all_iff)
    have "take (length g) (sort_desc (zip row g)) = sort_desc (zip row g)"
      using len by (simp add: length_sort_desc)
    moreover have "snd ` set (zip row g) = set g"
      using len by (metis map_snd_zip set_map)
    ultimately show ?thesis
      using lg by (simp add: set_sort_desc)
  qed
  then have "filter (\<lambda>(l, row). l \<in> snd ` set (take (length g) (sort_desc (zip row g)))) (zip q rs)
      = zip q rs"
    by (auto simp: filter_id_conv)
  then show ?thesis
    using assms(2) by (simp add: top_k_hits_def)
qed

text \<open>
  Claim C6, as amended. For a score matrix with at least one query row, one row per
  query label and one column per gallery label, \<^verbatim>\<open>top_k_accuracy\<close> is
  monotone in \<open>k\<close>: for \<open>1 \<le> k \<le> k' \<le> num_gallery\<close> both calls return and
  the first value is at most the second. With \<open>k = num_gallery\<close> the value is 1
  whenever every query label occurs among the gallery labels.
\<close>

theorem top_k_accuracy_monotone:
  assumes "query_labels \<noteq> []"
    and "length (rows scores) = length query_labels"
    and "wf_tensor2 scores"
    and "ncols scores = length gallery_labels"
  shows "(1 \<le> k \<and> k \<le> k' \<and> k' \<le> int (length gallery_labels) \<longrightarrow>
           (\<exists>a a'. top_k_accuracy scores query_labels gallery_labels k = Inr (Finite a) \<and>
                    top_k_accuracy scores query_labels gallery_labels k' = Inr (Finite a') \<and>
                    a \<le> a')) \<and>
         (set query_labels \<subseteq> set gallery_labels \<longrightarrow>
           top_k_accuracy scores query_labels gallery_labels (int (length gallery_labels)) = Inr (Finite 1))"
proof (intro conjI impI)
  let ?n = "length query_labels"
  have n: "0 < ?n" using assms(1) by simp
  assume k: "1 \<le> k \<and> k \<le> k' \<and> k' \<le> int (length gallery_labels)"
  let ?h = "top_k_hits (rows scores) query_labels gallery_labels (nat k)"
  let ?h' = "top_k_hits (rows scores) query_labels gallery_labels (nat k')"
  have "top_k_accuracy scores query_labels gallery_labels k = Inr (true_divide ?h ?n)"
    using assms(2,4) k by (intro top_k_accuracy_aligned) auto
  moreover have "top_k_accuracy scores query_labels gallery_labels k' = Inr (true_divide ?h' ?n)"
    using assms(2,4) k by (intro top_k_accuracy_aligned) auto
  moreover have "?h \<le> ?h'"
    using k by (intro top_k_hits_mono) auto
  then have "(of_nat ?h :: rat) / of_nat ?n \<le> of_nat ?h' / of_nat ?n"
    by (simp add: divide_right_mono)
  ultimately show "\<exists>a a'. top_k_accuracy scores query_labels gallery_labels k = Inr (Finite a) \<and>
                    top_k_accuracy scores query_labels gallery_labels k' = Inr (Finite a') \<and> a \<le> a'"
    using n by (simp add: true_divide_def)
next
  let ?n = "length query_labels"
  have n: "0 < ?n" using assms(1) by simp
  assume sub: "set query_labels \<subseteq> set gallery_labels"
  with assms(1) have g: "Suc 0 \<le> length gallery_labels"
    by (cases gallery_labels) auto
  have "top_k_accuracy scores query_labels gallery_labels (int (length gallery_labels))
      = Inr (true_divide (top_k_hits (rows scores) query_labels gallery_labels (nat (int (length gallery_labels)))) ?n)"
    using assms(2,4) g by (intro top_k_accuracy_aligned) simp_all
  moreover have "top_k_hits (rows scores) query_labels gallery_labels (length gallery_labels) = ?n"
    using assms(2,3,4) sub by (intro top_k_hits_full) (auto simp: wf_tensor2_def)
  ultimately show "top_k_accuracy scores query_labels gallery_labels (int (length gallery_labels)) = Inr (Finite 1)"
    using n by (simp add: true_divide_def)
qed

theorem top_k_accuracy_monotone_witness:
  "[20, 30::nat] \<noteq> [] \<and>
   length (rows (Tensor2 3 [[1, 5, 3], [2, 2, 0::int]])) = length [20, 30::nat] \<and>
   wf_tensor2 (Tensor2 3 [[1, 5, 3], [2, 2, 0::int]]) \<and>
   ncols (Tensor2 3 [[1, 5, 3], [2, 2, 0::int]]) = length [10, 20, 30::nat] \<and>
   (1::int) \<le> 1 \<and> (1::int) \<le> 3 \<and> (3::int) \<le> int (length [10, 20, 30::nat]) \<and>
   set [20, 30::nat] \<subseteq> set [10, 20, 30] \<and>
   top_k_accuracy (Tensor2 3 [[1, 5, 3], [2, 2, 0::int]]) [20, 30::nat] [10, 20, 30] 1 = Inr (Finite (1 / 2)) \<and>
   top_k_accuracy (Tensor2 3 [[1, 5, 3], [2, 2, 0::int]]) [20, 30::nat] [10, 20, 30] 3 = Inr (Finite 1) \<and>
   (1 / 2 :: rat) \<le> 1"
proof -
  have h1: "[20, 30::nat] \<noteq> []" by simp
  have h2: "length (rows (Tensor2 3 [[1, 5, 3], [2, 2, 0::int]])) = length [20, 30::nat]" by simp
  have h3: "wf_tensor2 (Tensor2 3 [[1, 5, 3], [2, 2, 0::int]])" by (simp add: wf_tensor2_def)
  have h4: "ncols (Tensor2 3 [[1, 5, 3], [2, 2, 0::int]]) = length [10, 20, 30::nat]" by simp
  have v1: "top_k_accuracy (Tensor2 3 [[1, 5, 3], [2, 2, 0::int]]) [20, 30::nat] [10, 20, 30] 1 = Inr (Finite (1 / 2))"
    by (simp add: top_k_accuracy_def top_k_def sort_desc_def top_all_accuracy_def eq_broadcast_def
        true_divide_def)
  from top_k_accuracy_monotone[OF h1 h2 h3 h4, of 1 3]
  have v3: "top_k_accuracy (Tensor2 3 [[1, 5, 3], [2, 2, 0::int]]) [20, 30::nat] [10, 20, 30] 3 = Inr (Finite 1)"
    by simp
  from h1 h2 h3 h4 v1 v3 show ?thesis
    by simp
qed

text \<open>
  Without a query the statement fails: every query label occurs in the gallery,
  \<open>k = 1\<close> is the number of gallery columns, and the value is NaN, which is
  neither 1 nor in the relation \<^verbatim>\<open><=\<close> to itself.
\<close>

theorem top_k_accuracy_empty_counterexample:
  "set ([]::nat list) \<subseteq> set [7] \<and>
   top_k_accuracy (Tensor2 1 ([]::int list list)) ([]::nat list) [7] 1 = Inr NaN \<and>
   top_k_accuracy (Tensor2 1 ([]::int list list)) ([]::nat list) [7] 1 \<noteq> Inr (Finite 1) \<and>
   \<not> fle NaN NaN"
  by (simp add: top_k_accuracy_Nil)


section \<open>Properties of the dataset construction\<close>

lemma set_unique: "set (unique xs) = set xs"
  by (induction xs) auto

lemma distinct_unique: "distinct (unique xs)"
  by (induction xs) (auto simp: set_unique)

lemma length_unique: "length (unique xs) = card (set xs)"
  using distinct_card[OF distinct_unique, of xs] by (simp add: set_unique)

lemma label_set_records:
  "label_set (d\<lparr>records := rs\<rparr>) label_key = (\<lambda>r. r label_key) ` set rs"
  by (simp add: label_set_def)

text \<open>
  Claim C1. Whenever \<^verbatim>\<open>label_based_k_fold_trainval_split\<close> returns a split,
  whatever the shuffle and the seed, no label occurs both in the train records and
  in the validation records, and the labels of the two parts together are the
  labels of the input. It does return a split for every valid configuration
  (\<open>num_folds \<ge> 2\<close>, \<open>0 \<le> val_fold < num_folds\<close>) on a frame that has the label
  column and at least \<open>num_folds\<close> distinct labels.
\<close>

theorem label_based_k_fold_label_disjoint:
  "(label_based_k_fold_trainval_split shuffle d num_folds val_fold seed label_key = Inr (df_train, df_val) \<longrightarrow>
      label_set df_train label_key \<inter> label_set df_val label_key = {} \<and>
      label_set df_train label_key \<union> label_set df_val label_key = label_set d label_key) \<and>
   (2 \<le> num_folds \<and> 0 \<le> val_fold \<and> val_fold < num_folds \<and> label_key \<in> set (columns d) \<and>
    num_folds \<le> int (card (label_set d label_key)) \<longrightarrow>
      (\<exists>df_train df_val.
         label_based_k_fold_trainval_split shuffle d num_folds val_fold seed label_key = Inr (df_train, df_val)))"
proof (intro conjI impI)
  assume ret: "label_based_k_fold_trainval_split shuffle d num_folds val_fold seed label_key = Inr (df_train, df_val)"
  then obtain labels where col: "column d label_key = Inr labels"
    by (cases "column d label_key") (auto simp: label_based_k_fold_trainval_split_def)
  define V where "V = set (fold_slice (shuffle seed (unique labels)) (nat num_folds) (nat val_fold))"
  from ret col have tr: "df_train = d\<lparr>records := filter (\<lambda>r. r label_key \<notin> V) (records d)\<rparr>"
    and va: "df_val = d\<lparr>records := filter (\<lambda>r. r label_key \<in> V) (records d)\<rparr>"
    by (auto simp: label_based_k_fold_trainval_split_def Let_def V_def split: if_splits)
  show "label_set df_train label_key \<inter> label_set df_val label_key = {}"
    unfolding tr va label_set_records by auto
  show "label_set df_train label_key \<union> label_set df_val label_key = label_set d label_key"
    unfolding tr va label_set_records label_set_def by auto
next
  assume ok: "2 \<le> num_folds \<and> 0 \<le> val_fold \<and> val_fold < num_folds \<and> label_key \<in> set (columns d) \<and>
    num_folds \<le> int (card (label_set d label_key))"
  then have col: "column d label_key = Inr (map (\<lambda>r. r label_key) (records d))"
    by (simp add: column_def)
  have "length (unique (map (\<lambda>r. r label_key) (records d))) = card (label_set d label_key)"
    by (simp add: length_unique label_set_def)
  with ok show "\<exists>df_train df_val.
      label_based_k_fold_trainval_split shuffle d num_folds val_fold seed label_key = Inr (df_train, df_val)"
    by (simp add: label_based_k_fold_trainval_split_def col Let_def)
qed

theorem label_based_k_fold_label_disjoint_witness:
  "(2::int) \<le> 2 \<and> (0::int) \<le> 0 \<and> (0::int) < 2 \<and>
   ''label'' \<in> set (columns \<lparr>columns = [''label'', ''image''],
        records = [\<lambda>k. if k = ''label'' then 5 else 100,
                   \<lambda>k. if k = ''label'' then 5 else 101,
                   \<lambda>k. if k = ''label'' then 7 else 102,
                   \<lambda>k. if k = ''label'' then (9::nat) else 103]\<rparr>) \<and>
   (2::int) \<le> int (card (label_set \<lparr>columns = [''label'', ''image''],
        records = [\<lambda>k. if k = ''label'' then 5 else 100,
                   \<lambda>k. if k = ''label'' then 5 else 101,
                   \<lambda>k. if k = ''label'' then 7 else 102,
                   \<lambda>k. if k = ''label'' then (9::nat) else 103]\<rparr> ''label'')) \<and>
   label_based_k_fold_trainval_split (\<lambda>seed xs. rotate (nat seed) xs)
     \<lparr>columns = [''label'', ''image''],
        records = [\<lambda>k. if k = ''label'' then 5 else 100,
                   \<lambda>k. if k = ''label'' then 5 else 101,
                   \<lambda>k. if k = ''label'' then 7 else 102,
                   \<lambda>k. if k = ''label'' then (9::nat) else 103]\<rparr> 2 0 1 ''label''
   = Inr (\<lparr>columns = [''label'', ''image''],
        records = [\<lambda>k. if k = ''label'' then 5 else 100,
                   \<lambda>k. if k = ''label'' then (5::nat) else 101]\<rparr>,
          \<lparr>columns = [''label'', ''image''],
        records = [\<lambda>k. if k = ''label'' then 7 else 102,
                   \<lambda>k. if k = ''label'' then (9::nat) else 103]\<rparr>) \<and>
   label_set \<lparr>columns = [''label'', ''image''],
        records = [\<lambda>k. if k = ''label'' then 5 else 100,
                   \<lambda>k. if k = ''label'' then (5::nat) else 101]\<rparr> ''label'' = {5} \<and>
   label_set \<lparr>columns = [''label'', ''image''],
        records = [\<lambda>k. if k = ''label'' then 7 else 102,
                   \<lambda>k. if k = ''label'' then (9::nat) else 103]\<rparr> ''label'' = {7, 9} \<and>
   label_set \<lparr>columns = [''label'', ''image''],
        records = [\<lambda>k. if k = ''label'' then 5 else 100,
                   \<lambda>k. if k = ''label'' then (5::nat) else 101]\<rparr> ''label''
     \<inter> label_set \<lparr>columns = [''label'', ''image''],
        records = [\<lambda>k. if k = ''label'' then 7 else 102,
                   \<lambda>k. if k = ''label'' then (9::nat) else 103]\<rparr> ''label'' = {} \<and>
   label_set \<lparr>columns = [''label'', ''image''],
        records = [\<lambda>k. if k = ''label'' then 5 else 100,
                   \<lambda>k. if k = ''label'' then (5::nat) else 101]\<rparr> ''label''
     \<union> label_set \<lparr>columns = [''label'', ''image''],
        records = [\<lambda>k. if k = ''label'' then 7 else 102,
                   \<lambda>k. if k = ''label'' then (9::nat) else 103]\<rparr> ''label''
     = label_set \<lparr>columns = [''label'', ''image''],
        records = [\<lambda>k. if k = ''label'' then 5 else 100,
                   \<lambda>k. if k = ''label'' then 5 else 101,
                   \<lambda>k. if k = ''label'' then 7 else 102,
                   \<lambda>k. if k = ''label'' then (9::nat) else 103]\<rparr> ''label''"
proof -
  let ?d = "\<lparr>columns = [''label'', ''image''],
        records = [\<lambda>k. if k = ''label'' then 5 else 100,
                   \<lambda>k. if k = ''label'' then 5 else 101,
                   \<lambda>k. if k = ''label'' then 7 else 102,
                   \<lambda>k. if k = ''label'' then (9::nat) else 103]\<rparr>"
  let ?tr = "\<lparr>columns = [''label'', ''image''],
        records = [\<lambda>k. if k = ''label'' then 5 else 100,
                   \<lambda>k. if k = ''label'' then (5::nat) else 101]\<rparr>"
  let ?va = "\<lparr>columns = [''label'', ''image''],
        records = [\<lambda>k. if k = ''label'' then 7 else 102,
                   \<lambda>k. if k = ''label'' then (9::nat) else 103]\<rparr>"
  have h: "label_based_k_fold_trainval_split (\<lambda>seed xs. rotate (nat seed) xs) ?d 2 0 1 ''label''
      = Inr (?tr, ?va)"
    by (simp add: label_based_k_fold_trainval_split_def column_def fold_slice_def)
  have c: "(2::int) \<le> int (card (label_set ?d ''label''))"
    by (simp add: label_set_def)
  have l: "label_set ?tr ''label'' = {5}" "label_set ?va ''label'' = {7, 9}"
    by (auto simp: label_set_def)
  from label_based_k_fold_label_disjoint[of "\<lambda>seed xs. rotate (nat seed) xs" ?d 2 0 1 "''label''" ?tr ?va]
    h c l
  show ?thesis by simp
qed

lemma enumerate_fold_dom:
  "dom (foldl (\<lambda>m (label_idx, label). m(label \<mapsto> label_idx)) m0 (enumerate n xs)) = dom m0 \<union> set xs"
  by (induction xs arbitrary: m0 n) auto

lemma enumerate_fold_other:
  "l \<notin> set xs \<Longrightarrow> foldl (\<lambda>m (label_idx, label). m(label \<mapsto> label_idx)) m0 (enumerate n xs) l = m0 l"
  by (induction xs arbitrary: m0 n) auto

lemma enumerate_fold_nth:
  "distinct xs \<Longrightarrow> i < length xs \<Longrightarrow>
   foldl (\<lambda>m (label_idx, label). m(label \<mapsto> label_idx)) m0 (enumerate n xs) (xs ! i) = Some (n + i)"
proof (induction xs arbitrary: m0 n i)
  case Nil
  then show ?case by simp
next
  case (Cons x xs)
  show ?case
  proof (cases i)
    case 0
    with Cons.prems enumerate_fold_other[of x xs "m0(x \<mapsto> n)" "Suc n"] show ?thesis
      by (simp del: fun_upd_apply) simp
  next
    case (Suc j)
    with Cons.prems Cons.IH[of j "m0(x \<mapsto> n)" "Suc n"] show ?thesis
      by (simp del: fun_upd_apply)
  qed
qed

lemma dom_enumerate_dict: "dom (enumerate_dict xs) = set xs"
  by (simp add: enumerate_dict_def enumerate_fold_dom)

lemma enumerate_dict_nth:
  "distinct xs \<Longrightarrow> i < length xs \<Longrightarrow> enumerate_dict xs (xs ! i) = Some i"
  using enumerate_fold_nth[of xs i Map.empty 0] by (simp add: enumerate_dict_def)

lemma enumerate_dict_Some_iff:
  assumes "distinct xs"
  shows "enumerate_dict xs l = Some i \<longleftrightarrow> i < length xs \<and> xs ! i = l"
proof
  assume s: "enumerate_dict xs l = Some i"
  then have "l \<in> set xs"
    using dom_enumerate_dict[of xs] by auto
  then obtain j where j: "j < length xs" "xs ! j = l"
    by (auto simp: in_set_conv_nth)
  with assms s enumerate_dict_nth[of xs j] show "i < length xs \<and> xs ! i = l"
    by simp
next
  assume "i < length xs \<and> xs ! i = l"
  with assms show "enumerate_dict xs l = Some i"
    using enumerate_dict_nth[of xs i] by auto
qed

lemma ran_enumerate_dict:
  assumes "distinct xs"
  shows "ran (enumerate_dict xs) = {0..<length xs}"
  using assms by (auto simp: ran_def enumerate_dict_Some_iff)

lemma inj_on_enumerate_dict:
  assumes "distinct xs"
  shows "inj_on (enumerate_dict xs) (set xs)"
proof (rule inj_onI)
  fix a b
  assume "a \<in> set xs" "b \<in> set xs" and eq: "enumerate_dict xs a = enumerate_dict xs b"
  then obtain i where a: "enumerate_dict xs a = Some i"
    using dom_enumerate_dict[of xs] by auto
  with eq have b: "enumerate_dict xs b = Some i" by simp
  from a b show "a = b"
    unfolding enumerate_dict_Some_iff[OF assms] by simp
qed

lemma dense_enumerate_unique: "dense_label_map (enumerate_dict (unique labels)) labels"
  unfolding dense_label_map_def
  using inj_on_enumerate_dict[OF distinct_unique, of labels]
    ran_enumerate_dict[OF distinct_unique, of labels]
  by (simp add: dom_enumerate_dict set_unique length_unique)

lemma enumerate_dict_unique_hd:
  assumes "labels \<noteq> []"
  shows "enumerate_dict (unique labels) (hd labels) = Some 0"
proof -
  from assms obtain x xs where l: "labels = x # xs" by (cases labels) auto
  have "enumerate_dict (unique labels) (unique labels ! 0) = Some 0"
    by (rule enumerate_dict_nth[OF distinct_unique]) (simp add: l)
  then show ?thesis by (simp add: l)
qed

text \<open>
  Claim C9. In every result of \<^verbatim>\<open>get_train_val_datasets\<close> the gallery dataset
  and the query dataset hold the same label-to-index map. That map is built from
  the labels of the validation frame: it is defined on exactly these labels, is
  injective, and its indices are the integers below the number of distinct
  validation labels. The map of the train dataset is built in the same way from
  the labels of the train frame alone. Each of the two maps numbers its own labels
  from 0: the first validation label has index 0 in the gallery and query views, and
  the first train label has index 0 in the train view.
\<close>

theorem get_train_val_datasets_label_maps:
  assumes "get_train_val_datasets read_csv k_fold_split gallery_query_split
             data_csv_file label_key image_key num_folds val_fold k_fold_seed n_refs rand_ref_seed
             tfm_train tfm_val = Inr (ds_train, ds_gal, ds_quer)"
  shows "\<exists>df df_train df_val train_labels val_labels.
     read_csv data_csv_file = Inr df \<and>
     k_fold_split df num_folds val_fold k_fold_seed label_key = Inr (df_train, df_val) \<and>
     column df_train label_key = Inr train_labels \<and>
     column df_val label_key = Inr val_labels \<and>
     ds_label_to_int ds_gal = ds_label_to_int ds_quer \<and>
     dense_label_map (ds_label_to_int ds_gal) val_labels \<and>
     dense_label_map (ds_label_to_int ds_train) train_labels \<and>
     (val_labels \<noteq> [] \<longrightarrow> ds_label_to_int ds_gal (hd val_labels) = Some 0) \<and>
     (train_labels \<noteq> [] \<longrightarrow> ds_label_to_int ds_train (hd train_labels) = Some 0)"
proof -
  from assms obtain df where df: "read_csv data_csv_file = Inr df"
    by (cases "read_csv data_csv_file") (auto simp: get_train_val_datasets_def)
  from assms df obtain df_train df_val where
    kf: "k_fold_split df num_folds val_fold k_fold_seed label_key = Inr (df_train, df_val)"
    by (cases "k_fold_split df num_folds val_fold k_fold_seed label_key")
      (auto simp: get_train_val_datasets_def)
  from assms df kf obtain df_gal df_quer where
    gq: "gallery_query_split df_val n_refs rand_ref_seed label_key = Inr (df_gal, df_quer)"
    by (cases "gallery_query_split df_val n_refs rand_ref_seed label_key")
      (auto simp: get_train_val_datasets_def)
  from assms df kf gq obtain train_labels where tl: "column df_train label_key = Inr train_labels"
    by (cases "column df_train label_key") (auto simp: get_train_val_datasets_def)
  from assms df kf gq tl obtain val_labels where vl: "column df_val label_key = Inr val_labels"
    by (cases "column df_val label_key") (auto simp: get_train_val_datasets_def Let_def)
  from assms df kf gq tl vl have
    "ds_label_to_int ds_train = enumerate_dict (unique train_labels)"
    "ds_label_to_int ds_gal = enumerate_dict (unique val_labels)"
    "ds_label_to_int ds_quer = enumerate_dict (unique val_labels)"
    by (auto simp: get_train_val_datasets_def Let_def)
  with df kf tl vl show ?thesis
    by (auto simp: dense_enumerate_unique enumerate_dict_unique_hd)
qed

theorem get_train_val_datasets_label_maps_witness:
  "\<exists>ds_train ds_gal ds_quer.
     get_train_val_datasets
       (\<lambda>f. Inr \<lparr>columns = [''label'', ''image''],
          records = [\<lambda>k. if k = ''label'' then 5 else 100,
                     \<lambda>k. if k = ''label'' then 5 else 101,
                     \<lambda>k. if k = ''label'' then 7 else 102,
                     \<lambda>k. if k = ''label'' then (9::nat) else 103]\<rparr>)
       (\<lambda>d num_folds val_fold seed k.
           Inr (d\<lparr>records := take 2 (records d)\<rparr>, d\<lparr>records := drop 2 (records d)\<rparr>))
       (\<lambda>d n s k. Inr (d\<lparr>records := take (nat n) (records d)\<rparr>,
                      d\<lparr>records := drop (nat n) (records d)\<rparr>))
       ''data.csv'' ''label'' ''image'' 2 0 1 1 0 (None :: (nat \<Rightarrow> nat) option) None
       = Inr (ds_train, ds_gal, ds_quer) \<and>
     ds_label_to_int ds_gal = ds_label_to_int ds_quer \<and>
     ds_label_to_int ds_gal 7 = Some 0 \<and> ds_label_to_int ds_gal 9 = Some 1 \<and>
     ds_label_to_int ds_gal 5 = None \<and>
     ds_label_to_int ds_train 5 = Some 0 \<and> ds_label_to_int ds_train 7 = None"
proof -
  have h: "get_train_val_datasets
       (\<lambda>f. Inr \<lparr>columns = [''label'', ''image''],
          records = [\<lambda>k. if k = ''label'' then 5 else 100,
                     \<lambda>k. if k = ''label'' then 5 else 101,
                     \<lambda>k. if k = ''label'' then 7 else 102,
                     \<lambda>k. if k = ''label'' then (9::nat) else 103]\<rparr>)
       (\<lambda>d num_folds val_fold seed k.
           Inr (d\<lparr>records := take 2 (records d)\<rparr>, d\<lparr>records := drop 2 (records d)\<rparr>))
       (\<lambda>d n s k. Inr (d\<lparr>records := take (nat n) (records d)\<rparr>,
                      d\<lparr>records := drop (nat n) (records d)\<rparr>))
       ''data.csv'' ''label'' ''image'' 2 0 1 1 0 (None :: (nat \<Rightarrow> nat) option) None
       = Inr (\<lparr>ds_df = \<lparr>columns = [''label'', ''image''], records = [\<lambda>k. if k = ''label'' then 5 else 100,
                      \<lambda>k. if k = ''label'' then 5 else 101]\<rparr>,
           ds_label_key = ''label'', ds_image_key = ''image'',
           ds_label_to_int = enumerate_dict [5], ds_transform = None\<rparr>,
          \<lparr>ds_df = \<lparr>columns = [''label'', ''image''], records = [\<lambda>k. if k = ''label'' then 7 else 102]\<rparr>,
           ds_label_key = ''label'', ds_image_key = ''image'',
           ds_label_to_int = enumerate_dict [7, 9], ds_transform = None\<rparr>,
          \<lparr>ds_df = \<lparr>columns = [''label'', ''image''], records = [\<lambda>k. if k = ''label'' then 9 else 103]\<rparr>,
           ds_label_key = ''label'', ds_image_key = ''image'',
           ds_label_to_int = enumerate_dict [7, 9], ds_transform = None\<rparr>)"
    by (simp add: get_train_val_datasets_def column_def Let_def)
  from get_train_val_datasets_label_maps[OF h] h show ?thesis
    by (simp add: enumerate_dict_def)
qed

section \<open>Properties of the score matrix\<close>

lemma gallery_loop_Inr:
  assumes "gallery_loop m f bs (ge, gl, evs) = (evs', Inr (ge', gl'))"
  shows "ge' = ge @ map (\<lambda>(imgs, labels). get_embeddings f m imgs) bs \<and>
         gl' = gl @ map snd bs \<and>
         evs' = evs @ map (\<lambda>(imgs, labels). Gallery_batch imgs labels) bs \<and>
         list_all (\<lambda>(imgs, labels). length labels = length (rows (get_embeddings f m imgs))) bs"
  using assms
proof (induction bs arbitrary: ge gl evs)
  case Nil
  then show ?case by simp
next
  case (Cons b bs)
  obtain imgs labels where b: "b = (imgs, labels)" by (cases b)
  from Cons.prems have al: "length labels = length (rows (get_embeddings f m imgs))"
    by (simp add: b Let_def split: if_splits)
  with Cons.prems have "gallery_loop m f bs
      (ge @ [get_embeddings f m imgs], gl @ [labels], evs @ [Gallery_batch imgs labels]) = (evs', Inr (ge', gl'))"
    by (simp add: b Let_def)
  from Cons.IH[OF this] al show ?case by (simp add: b)
qed

lemma gallery_loop_Inl:
  "snd (gallery_loop m f bs st) = Inl e \<Longrightarrow> e = ShapeMismatch"
proof (induction bs arbitrary: st)
  case Nil
  then show ?case by (cases st) simp
next
  case (Cons b bs)
  then show ?case
    by (cases st; cases b) (auto simp: Let_def split: if_splits)
qed

lemma gallery_loop_mismatch:
  assumes "\<not> list_all (\<lambda>(imgs, labels). length labels = length (rows (get_embeddings f m imgs))) bs"
  shows "snd (gallery_loop m f bs (ge, gl, evs)) = Inl ShapeMismatch"
  using assms
proof (induction bs arbitrary: ge gl evs)
  case Nil
  then show ?case by simp
next
  case (Cons b bs)
  then show ?case by (cases b) (auto simp: Let_def)
qed

lemma query_loop_Inr:
  assumes "query_loop m f G bs (sc, ql, evs) = (evs', Inr (sc', ql'))"
  shows "sc' = sc @ map (\<lambda>(imgs, labels). Tensor2 (length (rows G)) (map (score_row G) (rows (get_embeddings f m imgs)))) bs \<and>
         ql' = ql @ map snd bs \<and>
         evs' = evs @ map (\<lambda>(imgs, labels). Query_batch imgs labels) bs"
  using assms
proof (induction bs arbitrary: sc ql evs)
  case Nil
  then show ?case by simp
next
  case (Cons b bs)
  obtain imgs labels where b: "b = (imgs, labels)" by (cases b)
  from Cons.prems obtain s where s: "matmul_transposed (get_embeddings f m imgs) G = Inr s"
    by (cases "matmul_transposed (get_embeddings f m imgs) G") (simp_all add: b Let_def)
  then have s_eq: "s = Tensor2 (length (rows G)) (map (score_row G) (rows (get_embeddings f m imgs)))"
    by (auto simp: matmul_transposed_def split: if_splits)
  from Cons.prems s have "query_loop m f G bs
      (sc @ [s], ql @ [labels], evs @ [Query_batch imgs labels]) = (evs', Inr (sc', ql'))"
    by (simp add: b Let_def)
  from Cons.IH[OF this] s_eq show ?case by (simp add: b)
qed

lemma query_loop_Inl:
  "snd (query_loop m f G bs st) = Inl e \<Longrightarrow> e = TorchError"
proof (induction bs arbitrary: st)
  case Nil
  then show ?case by (cases st) simp
next
  case (Cons b bs)
  then show ?case
    by (cases st; cases b)
      (auto simp: Let_def matmul_transposed_def split: if_splits sum.splits)
qed

lemma cat_tensor2_Inl: "cat_tensor2 ts = Inl e \<Longrightarrow> e = TorchError"
  by (auto simp: cat_tensor2_def split: list.splits if_splits)

lemma cat_tensor1_Inl: "cat_tensor1 vs = Inl e \<Longrightarrow> e = TorchError"
  by (auto simp: cat_tensor1_def split: if_splits)

lemma cat_tensor2_Inr:
  "cat_tensor2 ts = Inr t \<Longrightarrow> ts \<noteq> [] \<and> rows t = concat (map rows ts) \<and> list_all (\<lambda>u. ncols u = ncols t) ts"
  by (auto simp: cat_tensor2_def split: list.splits if_splits)

lemma cat_tensor1_Inr: "cat_tensor1 vs = Inr v \<Longrightarrow> vs \<noteq> [] \<and> v = concat vs"
  by (auto simp: cat_tensor1_def split: if_splits)

lemma get_score_matrix_Inr:
  assumes "get_score_matrix m dl_gal dl_quer agg_gal_fn get_embeddings_fn
             = (evs, Inr (scores, quer_labels, gal_labels'))"
  shows "\<exists>gal_embeddings gal_embeddings'.
     \<not> training m \<and>
     list_all (\<lambda>(imgs, labels). length labels = length (rows (get_embeddings get_embeddings_fn m imgs))) dl_gal \<and>
     cat_tensor2 (map (\<lambda>(imgs, labels). get_embeddings get_embeddings_fn m imgs) dl_gal) = Inr gal_embeddings \<and>
     (gal_embeddings', gal_labels') =
        (case agg_gal_fn of
           None \<Rightarrow> (gal_embeddings, concat (map snd dl_gal))
         | Some agg \<Rightarrow> agg gal_embeddings (concat (map snd dl_gal))) \<and>
     evs = map (\<lambda>(imgs, labels). Gallery_batch imgs labels) dl_gal
           @ (case agg_gal_fn of
                None \<Rightarrow> []
              | Some agg \<Rightarrow> [Aggregate gal_embeddings (concat (map snd dl_gal))])
           @ map (\<lambda>(imgs, labels). Query_batch imgs labels) dl_quer \<and>
     cat_tensor2 (map (\<lambda>(imgs, labels). Tensor2 (length (rows gal_embeddings'))
                        (map (score_row gal_embeddings') (rows (get_embeddings get_embeddings_fn m imgs)))) dl_quer)
       = Inr scores \<and>
     quer_labels = concat (map snd dl_quer)"
proof -
  from assms have nt: "\<not> training m"
    by (auto simp: get_score_matrix_def split: if_splits)
  obtain evs1 r1 where g: "gallery_loop m get_embeddings_fn dl_gal ([], [], []) = (evs1, r1)"
    by (cases "gallery_loop m get_embeddings_fn dl_gal ([], [], [])")
  from assms nt g obtain gel gll where r1: "r1 = Inr (gel, gll)"
    by (cases r1) (auto simp: get_score_matrix_def)
  note gl = gallery_loop_Inr[OF g[unfolded r1]]
  from assms nt g r1 obtain G where G: "cat_tensor2 gel = Inr G"
    by (cases "cat_tensor2 gel") (auto simp: get_score_matrix_def)
  from assms nt g r1 G obtain L where L: "cat_tensor1 gll = Inr L"
    by (cases "cat_tensor1 gll") (auto simp: get_score_matrix_def)
  have L_eq: "L = concat (map snd dl_gal)"
    using cat_tensor1_Inr[OF L] gl by simp
  define G' where "G' = (case agg_gal_fn of None \<Rightarrow> G | Some agg \<Rightarrow> fst (agg G L))"
  define L' where "L' = (case agg_gal_fn of None \<Rightarrow> L | Some agg \<Rightarrow> snd (agg G L))"
  define evs2 where "evs2 = (case agg_gal_fn of None \<Rightarrow> evs1 | Some agg \<Rightarrow> evs1 @ [Aggregate G L])"
  have agg_eq: "(case agg_gal_fn of
                  None \<Rightarrow> (G, L, evs1)
                | Some agg \<Rightarrow> (let (e, l) = agg G L in (e, l, evs1 @ [Aggregate G L])))
              = (G', L', evs2)"
    by (cases agg_gal_fn) (auto simp: G'_def L'_def evs2_def case_prod_unfold Let_def)
  obtain evs3 r3 where q: "query_loop m get_embeddings_fn G' dl_quer ([], [], evs2) = (evs3, r3)"
    by (cases "query_loop m get_embeddings_fn G' dl_quer ([], [], evs2)")
  have unfolded: "get_score_matrix m dl_gal dl_quer agg_gal_fn get_embeddings_fn =
      (case r3 of
         Inl e \<Rightarrow> (evs3, Inl e)
       | Inr (scores_list, quer_labels_list) \<Rightarrow>
           (case cat_tensor2 scores_list of
              Inl e \<Rightarrow> (evs3, Inl e)
            | Inr scores \<Rightarrow>
                (case cat_tensor1 quer_labels_list of
                   Inl e \<Rightarrow> (evs3, Inl e)
                 | Inr quer_labels \<Rightarrow> (evs3, Inr (scores, quer_labels, L')))))"
    using nt by (simp add: get_score_matrix_def g r1 G L agg_eq q)
  from assms unfolded obtain scl qll where r3: "r3 = Inr (scl, qll)"
    by (cases r3) auto
  note ql = query_loop_Inr[OF q[unfolded r3]]
  from assms unfolded r3 obtain S where S: "cat_tensor2 scl = Inr S"
    by (cases "cat_tensor2 scl") auto
  from assms unfolded r3 S obtain Q where Q: "cat_tensor1 qll = Inr Q"
    by (cases "cat_tensor1 qll") auto
  from assms unfolded r3 S Q have res: "evs = evs3" "scores = S" "quer_labels = Q" "gal_labels' = L'"
    by simp_all
  have "(G', L') = (case agg_gal_fn of None \<Rightarrow> (G, L) | Some agg \<Rightarrow> agg G L)"
    by (cases agg_gal_fn) (simp_all add: G'_def L'_def)
  moreover have "evs3 = map (\<lambda>(imgs, labels). Gallery_batch imgs labels) dl_gal
           @ (case agg_gal_fn of None \<Rightarrow> [] | Some agg \<Rightarrow> [Aggregate G L])
           @ map (\<lambda>(imgs, labels). Query_batch imgs labels) dl_quer"
    using ql gl by (cases agg_gal_fn) (simp_all add: evs2_def)
  moreover have "cat_tensor2 (map (\<lambda>(imgs, labels). get_embeddings get_embeddings_fn m imgs) dl_gal) = Inr G"
    using G gl by simp
  moreover have "cat_tensor2 (map (\<lambda>(imgs, labels). Tensor2 (length (rows G'))
                        (map (score_row G') (rows (get_embeddings get_embeddings_fn m imgs)))) dl_quer) = Inr S"
    using S ql by simp
  moreover have "Q = concat (map snd dl_quer)"
    using cat_tensor1_Inr[OF Q] ql by simp
  ultimately show ?thesis
    using nt gl res L_eq by blast
qed

lemma zip_concat_batches:
  assumes "list_all (\<lambda>(x, l). length (h x) = length l) bs"
  shows "zip (concat (map (\<lambda>(x, l). h x) bs)) (concat (map snd bs))
       = concat (map (\<lambda>(x, l). zip (h x) l) bs)"
  using assms by (induction bs) (auto simp: zip_append)

lemma length_concat_batches:
  assumes "list_all (\<lambda>(x, l). length (h x) = length l) bs"
  shows "length (concat (map (\<lambda>(x, l). h x) bs)) = length (concat (map snd bs))"
  using assms by (induction bs) auto

text \<open>
  The runs that return. In inference mode the call returns when both loaders yield
  at least one batch, every gallery batch has as many labels as embeddings, the
  gallery embeddings have one width, and the query embeddings have the width of the
  (aggregated) gallery embeddings.
\<close>

lemma gallery_loop_aligned:
  assumes "list_all (\<lambda>(imgs, labels). length labels = length (rows (get_embeddings f m imgs))) bs"
  shows "gallery_loop m f bs (ge, gl, evs) =
     (evs @ map (\<lambda>(imgs, labels). Gallery_batch imgs labels) bs,
      Inr (ge @ map (\<lambda>(imgs, labels). get_embeddings f m imgs) bs, gl @ map snd bs))"
  using assms by (induction bs arbitrary: ge gl evs) (auto simp: Let_def)

lemma query_loop_widths:
  assumes "list_all (\<lambda>(imgs, labels). ncols (get_embeddings f m imgs) = ncols G) bs"
  shows "query_loop m f G bs (sc, ql, evs) =
     (evs @ map (\<lambda>(imgs, labels). Query_batch imgs labels) bs,
      Inr (sc @ map (\<lambda>(imgs, labels).
               Tensor2 (length (rows G)) (map (score_row G) (rows (get_embeddings f m imgs)))) bs,
           ql @ map snd bs))"
  using assms by (induction bs arbitrary: sc ql evs) (auto simp: Let_def matmul_transposed_def)

lemma cat_tensor2_same_width:
  assumes "ts \<noteq> []" "list_all (\<lambda>u. ncols u = d) ts"
  shows "cat_tensor2 ts = Inr (Tensor2 d (concat (map rows ts)))"
  using assms by (cases ts) (auto simp: cat_tensor2_def list_all_iff)

lemma get_score_matrix_returns:
  assumes nt: "\<not> training m"
    and gal: "dl_gal \<noteq> []"
      "list_all (\<lambda>(imgs, labels). length labels = length (rows (get_embeddings get_embeddings_fn m imgs))) dl_gal"
      "list_all (\<lambda>(imgs, labels). ncols (get_embeddings get_embeddings_fn m imgs) = d) dl_gal"
    and agg: "(gal_embeddings', gal_labels') =
        (case agg_gal_fn of
           None \<Rightarrow> (Tensor2 d (concat (map (\<lambda>(imgs, labels). rows (get_embeddings get_embeddings_fn m imgs)) dl_gal)),
                     concat (map snd dl_gal))
         | Some agg \<Rightarrow>
             agg (Tensor2 d (concat (map (\<lambda>(imgs, labels). rows (get_embeddings get_embeddings_fn m imgs)) dl_gal)))
                 (concat (map snd dl_gal)))"
    and quer: "dl_quer \<noteq> []"
      "list_all (\<lambda>(imgs, labels). ncols (get_embeddings get_embeddings_fn m imgs) = ncols gal_embeddings') dl_quer"
  shows "\<exists>evs scores.
     get_score_matrix m dl_gal dl_quer agg_gal_fn get_embeddings_fn
       = (evs, Inr (scores, concat (map snd dl_quer), gal_labels'))"
proof -
  let ?E = "get_embeddings get_embeddings_fn m"
  let ?G = "Tensor2 d (concat (map (\<lambda>(imgs, labels). rows (?E imgs)) dl_gal))"
  have g: "gallery_loop m get_embeddings_fn dl_gal ([], [], []) =
      (map (\<lambda>(imgs, labels). Gallery_batch imgs labels) dl_gal,
       Inr (map (\<lambda>(imgs, labels). ?E imgs) dl_gal, map snd dl_gal))"
    using gallery_loop_aligned[OF gal(2), of "[]" "[]" "[]"] by simp
  have cg: "cat_tensor2 (map (\<lambda>(imgs, labels). ?E imgs) dl_gal) = Inr ?G"
    using cat_tensor2_same_width[of "map (\<lambda>(imgs, labels). ?E imgs) dl_gal" d] gal(1,3)
    by (simp add: list_all_iff comp_def case_prod_unfold)
  have cl: "cat_tensor1 (map snd dl_gal) = Inr (concat (map snd dl_gal))"
    using gal(1) by (simp add: cat_tensor1_def)
  obtain evs2 where a: "(case agg_gal_fn of
        None \<Rightarrow> (?G, concat (map snd dl_gal), map (\<lambda>(imgs, labels). Gallery_batch imgs labels) dl_gal)
      | Some agg \<Rightarrow>
          (let (e, l) = agg ?G (concat (map snd dl_gal))
           in (e, l, map (\<lambda>(imgs, labels). Gallery_batch imgs labels) dl_gal
                      @ [Aggregate ?G (concat (map snd dl_gal))])))
      = (gal_embeddings', gal_labels', evs2)"
    using agg by (cases agg_gal_fn) (auto simp: case_prod_unfold Let_def prod_eq_iff)
  let ?S = "map (\<lambda>(imgs, labels).
      Tensor2 (length (rows gal_embeddings')) (map (score_row gal_embeddings') (rows (?E imgs)))) dl_quer"
  have q: "query_loop m get_embeddings_fn gal_embeddings' dl_quer ([], [], evs2) =
      (evs2 @ map (\<lambda>(imgs, labels). Query_batch imgs labels) dl_quer, Inr (?S, map snd dl_quer))"
    using query_loop_widths[OF quer(2), of "[]" "[]" evs2] by simp
  have cs: "cat_tensor2 ?S = Inr (Tensor2 (length (rows gal_embeddings')) (concat (map rows ?S)))"
    using quer(1) by (intro cat_tensor2_same_width) (simp_all add: list_all_iff case_prod_unfold)
  have cq: "cat_tensor1 (map snd dl_quer) = Inr (concat (map snd dl_quer))"
    using quer(1) by (simp add: cat_tensor1_def)
  show ?thesis
    using nt by (simp add: get_score_matrix_def g cg cl a q cs cq)
qed

text \<open>
  Claim C8. When the model is in training mode, \<^verbatim>\<open>get_score_matrix\<close> fails
  with \<open>InvalidModelState\<close> and no event has taken place: no batch has been taken
  from either loader. When the model is not in training mode, whatever else
  happens, the result is not \<open>InvalidModelState\<close>.
\<close>

theorem get_score_matrix_model_state:
  "(training m \<longrightarrow>
      get_score_matrix m dl_gal dl_quer agg_gal_fn get_embeddings_fn = ([], Inl InvalidModelState)) \<and>
   (\<not> training m \<longrightarrow>
      snd (get_score_matrix m dl_gal dl_quer agg_gal_fn get_embeddings_fn) \<noteq> Inl InvalidModelState)"
proof (intro conjI impI)
  assume "training m"
  then show "get_score_matrix m dl_gal dl_quer agg_gal_fn get_embeddings_fn = ([], Inl InvalidModelState)"
    by (simp add: get_score_matrix_def)
next
  assume nt: "\<not> training m"
  show "snd (get_score_matrix m dl_gal dl_quer agg_gal_fn get_embeddings_fn) \<noteq> Inl InvalidModelState"
  proof
    assume bad: "snd (get_score_matrix m dl_gal dl_quer agg_gal_fn get_embeddings_fn) = Inl InvalidModelState"
    have g: "snd (gallery_loop m get_embeddings_fn dl_gal ([], [], [])) \<noteq> Inl InvalidModelState"
      using gallery_loop_Inl by fastforce
    have q: "snd (query_loop m get_embeddings_fn G dl_quer st) \<noteq> Inl InvalidModelState" for G st
      using query_loop_Inl by fastforce
    have c2: "cat_tensor2 ts \<noteq> Inl InvalidModelState" for ts :: "'b tensor2 list"
      using cat_tensor2_Inl by fastforce
    have c1: "cat_tensor1 vs \<noteq> Inl InvalidModelState" for vs :: "'c list list"
      using cat_tensor1_Inl by fastforce
    from bad nt show False
      unfolding get_score_matrix_def
      by (auto simp: Let_def split: prod.splits sum.splits option.splits
            dest!: arg_cong[where f = snd] simp: g q c2 c1)
  qed
qed

theorem get_score_matrix_model_state_witness:
  "training (\<lparr>training = True,
        forward = \<lambda>imgs. Tensor2 2 (map (\<lambda>i. [int i, 1]) imgs)\<rparr> :: (nat list, int) model) \<and>
   get_score_matrix
      \<lparr>training = True,
        forward = \<lambda>imgs. Tensor2 2 (map (\<lambda>i. [int i, 1]) imgs)\<rparr>
      [([1, 2::nat], [10, 20::nat]), ([3], [10])]
      [([1::nat], [10::nat]), ([2, 3], [20, 10])]
      None None
    = ([], Inl InvalidModelState) \<and>
   \<not> training (\<lparr>training = False,
        forward = \<lambda>imgs. Tensor2 2 (map (\<lambda>i. [int i, 1]) imgs)\<rparr> :: (nat list, int) model) \<and>
   snd (get_score_matrix
      \<lparr>training = False,
        forward = \<lambda>imgs. Tensor2 2 (map (\<lambda>i. [int i, 1]) imgs)\<rparr>
      [([1, 2::nat], [10, 20::nat]), ([3], [10])]
      [([1::nat], [10::nat]), ([2, 3], [20, 10])]
      None None)
    \<noteq> Inl InvalidModelState"
  using get_score_matrix_model_state[of
      "\<lparr>training = True,
        forward = \<lambda>imgs. Tensor2 2 (map (\<lambda>i. [int i, 1]) imgs)\<rparr>"
      "[([1, 2::nat], [10, 20::nat]), ([3], [10])]"
      "[([1::nat], [10::nat]), ([2, 3], [20, 10])]" None None]
    get_score_matrix_model_state[of
      "\<lparr>training = False,
        forward = \<lambda>imgs. Tensor2 2 (map (\<lambda>i. [int i, 1]) imgs)\<rparr>"
      "[([1, 2::nat], [10, 20::nat]), ([3], [10])]"
      "[([1::nat], [10::nat]), ([2, 3], [20, 10])]" None None]
  by simp

text \<open>
  The gallery loop does check every batch: a gallery batch whose label count
  differs from its embedding count makes the whole call fail with
  \<open>ShapeMismatch\<close>.
\<close>

lemma get_score_matrix_gallery_mismatch:
  assumes "\<not> training m"
    and "\<not> list_all (\<lambda>(imgs, labels). length labels = length (rows (get_embeddings get_embeddings_fn m imgs))) dl_gal"
  shows "snd (get_score_matrix m dl_gal dl_quer agg_gal_fn get_embeddings_fn) = Inl ShapeMismatch"
proof -
  obtain evs r where g: "gallery_loop m get_embeddings_fn dl_gal ([], [], []) = (evs, r)"
    by (cases "gallery_loop m get_embeddings_fn dl_gal ([], [], [])")
  with gallery_loop_mismatch[OF assms(2), of "[]" "[]" "[]"] have "r = Inl ShapeMismatch"
    by simp
  with assms(1) g show ?thesis
    by (simp add: get_score_matrix_def)
qed

text \<open>
  Claim C3 at a query batch. The model returns one embedding for every batch; the
  gallery batch has one label, the query batch has two. The label count of the
  query batch differs from its embedding count, and the call returns a score matrix
  with one row beside two query labels instead of failing with \<open>ShapeMismatch\<close>.
\<close>

theorem get_score_matrix_query_batch_unchecked:
  "length [7, 8::nat]
     \<noteq> length (rows (get_embeddings None \<lparr>training = False, forward = \<lambda>imgs. Tensor2 2 [[1, 1::int]]\<rparr> [1, 2::nat])) \<and>
   snd (get_score_matrix \<lparr>training = False, forward = \<lambda>imgs. Tensor2 2 [[1, 1::int]]\<rparr>
          [([0::nat], [7::nat])] [([1, 2], [7, 8])] None None)
     = Inr (Tensor2 1 [[2]], [7, 8], [7]) \<and>
   length (rows (Tensor2 1 [[2::int]])) \<noteq> length [7, 8::nat]"
  by (simp add: get_score_matrix_def get_embeddings_def matmul_transposed_def score_row_def
        dot_def cat_tensor2_def cat_tensor1_def)

text \<open>
  Claim C4. In every run of \<^verbatim>\<open>get_score_matrix\<close> that returns, the events are:
  first every gallery batch in the order of the loader, then, if an aggregation
  function is supplied, exactly one call of it on the concatenation of all gallery
  embeddings and of all gallery labels in batch order, then every query batch in
  the order of the loader. The returned gallery labels are those of the (aggregated)
  pair; the rows of the score matrix are, batch after batch in that order, the
  inner products of the rows of the batch embeddings with the rows of the
  (aggregated) gallery embeddings; the query labels are the concatenation of the
  batch labels.
\<close>

theorem get_score_matrix_processing_order:
  assumes "get_score_matrix m dl_gal dl_quer agg_gal_fn get_embeddings_fn
             = (evs, Inr (scores, quer_labels, gal_labels))"
  shows "\<exists>gal_embeddings gal_embeddings'.
     rows gal_embeddings = concat (map (\<lambda>(imgs, labels). rows (get_embeddings get_embeddings_fn m imgs)) dl_gal) \<and>
     (gal_embeddings', gal_labels) =
        (case agg_gal_fn of
           None \<Rightarrow> (gal_embeddings, concat (map snd dl_gal))
         | Some agg \<Rightarrow> agg gal_embeddings (concat (map snd dl_gal))) \<and>
     evs = map (\<lambda>(imgs, labels). Gallery_batch imgs labels) dl_gal
           @ (case agg_gal_fn of
                None \<Rightarrow> []
              | Some agg \<Rightarrow> [Aggregate gal_embeddings (concat (map snd dl_gal))])
           @ map (\<lambda>(imgs, labels). Query_batch imgs labels) dl_quer \<and>
     rows scores = concat (map (\<lambda>(imgs, labels).
                     map (score_row gal_embeddings') (rows (get_embeddings get_embeddings_fn m imgs))) dl_quer) \<and>
     quer_labels = concat (map snd dl_quer)"
proof -
  from get_score_matrix_Inr[OF assms] obtain G G' where
    G: "cat_tensor2 (map (\<lambda>(imgs, labels). get_embeddings get_embeddings_fn m imgs) dl_gal) = Inr G"
    and agg: "(G', gal_labels) =
        (case agg_gal_fn of
           None \<Rightarrow> (G, concat (map snd dl_gal))
         | Some agg \<Rightarrow> agg G (concat (map snd dl_gal)))"
    and evs: "evs = map (\<lambda>(imgs, labels). Gallery_batch imgs labels) dl_gal
           @ (case agg_gal_fn of None \<Rightarrow> [] | Some agg \<Rightarrow> [Aggregate G (concat (map snd dl_gal))])
           @ map (\<lambda>(imgs, labels). Query_batch imgs labels) dl_quer"
    and S: "cat_tensor2 (map (\<lambda>(imgs, labels). Tensor2 (length (rows G'))
                        (map (score_row G') (rows (get_embeddings get_embeddings_fn m imgs)))) dl_quer) = Inr scores"
    and Q: "quer_labels = concat (map snd dl_quer)"
    by blast
  have "rows G = concat (map (\<lambda>(imgs, labels). rows (get_embeddings get_embeddings_fn m imgs)) dl_gal)"
    using cat_tensor2_Inr[OF G] by (simp add: comp_def case_prod_unfold)
  moreover have "rows scores = concat (map (\<lambda>(imgs, labels).
                     map (score_row G') (rows (get_embeddings get_embeddings_fn m imgs))) dl_quer)"
    using cat_tensor2_Inr[OF S] by (simp add: comp_def case_prod_unfold)
  ultimately show ?thesis
    using agg evs Q by blast
qed

theorem get_score_matrix_processing_order_witness:
  "get_score_matrix
      \<lparr>training = False,
        forward = \<lambda>imgs. Tensor2 2 (map (\<lambda>i. [int i, 1]) imgs)\<rparr>
      [([1, 2::nat], [10, 20::nat]), ([3], [10])]
      [([1::nat], [10::nat]), ([2, 3], [20, 10])]
      (Some (\<lambda>e l. (Tensor2 (ncols e) (take 1 (rows e)), take 1 l))) None
    = ([Gallery_batch [1, 2] [10, 20], Gallery_batch [3] [10],
         Aggregate (Tensor2 2 [[1, 1], [2, 1], [3, 1]]) [10, 20, 10],
         Query_batch [1] [10], Query_batch [2, 3] [20, 10]],
        Inr (Tensor2 1 [[2], [3], [4]], [10, 20, 10], [10])) \<and>
   [10, 20, 10] = concat (map snd [([1::nat], [10::nat]), ([2, 3], [20, 10])])"
proof -
  have h: "get_score_matrix
      \<lparr>training = False,
        forward = \<lambda>imgs. Tensor2 2 (map (\<lambda>i. [int i, 1]) imgs)\<rparr>
      [([1, 2::nat], [10, 20::nat]), ([3], [10])]
      [([1::nat], [10::nat]), ([2, 3], [20, 10])]
      (Some (\<lambda>e l. (Tensor2 (ncols e) (take 1 (rows e)), take 1 l))) None
    = ([Gallery_batch [1, 2] [10, 20], Gallery_batch [3] [10],
         Aggregate (Tensor2 2 [[1, 1], [2, 1], [3, 1]]) [10, 20, 10],
         Query_batch [1] [10], Query_batch [2, 3] [20, 10]],
        Inr (Tensor2 1 [[2], [3], [4]], [10, 20, 10], [10]))"
    by (simp add: get_score_matrix_def get_embeddings_def matmul_transposed_def score_row_def
        dot_def cat_tensor2_def cat_tensor1_def)
  from get_score_matrix_processing_order[OF h]
  have "[10, 20, 10] = concat (map snd [([1::nat], [10::nat]), ([2, 3], [20, 10])])"
    by blast
  with h show ?thesis by (rule conjI)
qed

text \<open>
  Claim C2, as amended. For every run of \<^verbatim>\<open>get_score_matrix\<close> that returns, in
  which every query batch yields as many embeddings as labels and the aggregation
  function, if supplied, returns as many labels as embeddings on a pair with as
  many labels as embeddings: the score matrix has one row per query label and one
  column per gallery label; row \<open>i\<close> holds the scores of the query whose label is
  \<open>quer_labels[i]\<close>, the pairs of score row and label being exactly the pairs of
  the batches; entry \<open>j\<close> of a row is the score against row \<open>j\<close> of the
  gallery embeddings, which without aggregation is paired with \<open>gal_labels[j]\<close> as
  in the gallery batches.
\<close>

theorem get_score_matrix_shape:
  assumes ret: "get_score_matrix m dl_gal dl_quer agg_gal_fn get_embeddings_fn
             = (evs, Inr (scores, quer_labels, gal_labels))"
    and quer: "list_all (\<lambda>(imgs, labels). length (rows (get_embeddings get_embeddings_fn m imgs)) = length labels) dl_quer"
    and agg: "case agg_gal_fn of
                None \<Rightarrow> True
              | Some agg \<Rightarrow> (\<forall>e l. length (rows e) = length l \<longrightarrow>
                               length (rows (fst (agg e l))) = length (snd (agg e l)))"
  shows "length (rows scores) = length quer_labels \<and>
         ncols scores = length gal_labels \<and>
         wf_tensor2 scores \<and>
         (\<exists>gal_embeddings.
            length (rows gal_embeddings) = length gal_labels \<and>
            zip (rows scores) quer_labels =
              concat (map (\<lambda>(imgs, labels).
                zip (map (score_row gal_embeddings) (rows (get_embeddings get_embeddings_fn m imgs))) labels) dl_quer) \<and>
            (agg_gal_fn = None \<longrightarrow>
               zip (rows gal_embeddings) gal_labels =
                 concat (map (\<lambda>(imgs, labels). zip (rows (get_embeddings get_embeddings_fn m imgs)) labels) dl_gal)))"
proof -
  let ?E = "get_embeddings get_embeddings_fn m"
  from get_score_matrix_Inr[OF ret] obtain G G' where
    gal: "list_all (\<lambda>(imgs, labels). length labels = length (rows (?E imgs))) dl_gal"
    and G: "cat_tensor2 (map (\<lambda>(imgs, labels). ?E imgs) dl_gal) = Inr G"
    and ag: "(G', gal_labels) =
        (case agg_gal_fn of
           None \<Rightarrow> (G, concat (map snd dl_gal))
         | Some agg \<Rightarrow> agg G (concat (map snd dl_gal)))"
    and S: "cat_tensor2 (map (\<lambda>(imgs, labels). Tensor2 (length (rows G'))
                        (map (score_row G') (rows (?E imgs)))) dl_quer) = Inr scores"
    and Q: "quer_labels = concat (map snd dl_quer)"
    by blast
  have rowsG: "rows G = concat (map (\<lambda>(imgs, labels). rows (?E imgs)) dl_gal)"
    using cat_tensor2_Inr[OF G] by (simp add: comp_def case_prod_unfold)
  have gal': "list_all (\<lambda>(imgs, labels). length (rows (?E imgs)) = length labels) dl_gal"
    using gal by (simp add: list_all_iff case_prod_unfold)
  have lenG: "length (rows G) = length (concat (map snd dl_gal))"
    unfolding rowsG by (rule length_concat_batches[OF gal'])
  have lenG': "length (rows G') = length gal_labels"
  proof (cases agg_gal_fn)
    case None
    with ag lenG show ?thesis by simp
  next
    case (Some a)
    with agg lenG have "length (rows (fst (a G (concat (map snd dl_gal)))))
        = length (snd (a G (concat (map snd dl_gal))))"
      by simp
    moreover from ag Some have "G' = fst (a G (concat (map snd dl_gal)))"
      "gal_labels = snd (a G (concat (map snd dl_gal)))"
      by (simp_all add: prod_eq_iff)
    ultimately show ?thesis by simp
  qed
  let ?h = "\<lambda>imgs. map (score_row G') (rows (?E imgs))"
  have rowsS: "rows scores = concat (map (\<lambda>(imgs, labels). ?h imgs) dl_quer)"
    using cat_tensor2_Inr[OF S] by (simp add: comp_def case_prod_unfold)
  have quer': "list_all (\<lambda>(imgs, labels). length (?h imgs) = length labels) dl_quer"
    using quer by simp
  have len: "length (rows scores) = length quer_labels"
    unfolding rowsS Q by (rule length_concat_batches[OF quer'])
  have nonempty: "dl_quer \<noteq> []"
    using cat_tensor2_Inr[OF S] by simp
  then obtain b bs where dq: "dl_quer = b # bs" by (cases dl_quer) auto
  have nc: "ncols scores = length (rows G')"
    using cat_tensor2_Inr[OF S] by (simp add: dq case_prod_unfold)
  have wf: "wf_tensor2 scores"
    unfolding wf_tensor2_def nc rowsS
    by (auto simp: list_all_iff score_row_def)
  have rowal: "zip (rows scores) quer_labels =
      concat (map (\<lambda>(imgs, labels). zip (?h imgs) labels) dl_quer)"
    unfolding rowsS Q by (rule zip_concat_batches[OF quer'])
  have colal: "zip (rows G') gal_labels =
      concat (map (\<lambda>(imgs, labels). zip (rows (?E imgs)) labels) dl_gal)" if "agg_gal_fn = None"
  proof -
    from that ag have "G' = G" "gal_labels = concat (map snd dl_gal)" by simp_all
    then show ?thesis
      using zip_concat_batches[OF gal'] by (simp add: rowsG)
  qed
  from len nc lenG' wf rowal colal show ?thesis by auto
qed

theorem get_score_matrix_shape_witness:
  "get_score_matrix
      \<lparr>training = False,
        forward = \<lambda>imgs. Tensor2 2 (map (\<lambda>i. [int i, 1]) imgs)\<rparr>
      [([1, 2::nat], [10, 20::nat]), ([3], [10])]
      [([1::nat], [10::nat]), ([2, 3], [20, 10])]
      (Some (\<lambda>e l. (Tensor2 (ncols e) (take 1 (rows e)), take 1 l))) None
    = ([Gallery_batch [1, 2] [10, 20], Gallery_batch [3] [10],
         Aggregate (Tensor2 2 [[1, 1], [2, 1], [3, 1]]) [10, 20, 10],
         Query_batch [1] [10], Query_batch [2, 3] [20, 10]],
        Inr (Tensor2 1 [[2], [3], [4]], [10, 20, 10], [10])) \<and>
   list_all (\<lambda>(imgs, labels).
       length (rows (get_embeddings None
         \<lparr>training = False,
        forward = \<lambda>imgs. Tensor2 2 (map (\<lambda>i. [int i, 1]) imgs)\<rparr> imgs))
       = length labels)
     [([1::nat], [10::nat]), ([2, 3], [20, 10])] \<and>
   length (rows (Tensor2 1 [[2], [3], [4::int]])) = length [10, 20, 10::nat] \<and>
   ncols (Tensor2 1 [[2], [3], [4::int]]) = length [10::nat] \<and>
   wf_tensor2 (Tensor2 1 [[2], [3], [4::int]])"
proof -
  have h: "get_score_matrix
      \<lparr>training = False,
        forward = \<lambda>imgs. Tensor2 2 (map (\<lambda>i. [int i, 1]) imgs)\<rparr>
      [([1, 2::nat], [10, 20::nat]), ([3], [10])]
      [([1::nat], [10::nat]), ([2, 3], [20, 10])]
      (Some (\<lambda>e l. (Tensor2 (ncols e) (take 1 (rows e)), take 1 l))) None
    = ([Gallery_batch [1, 2] [10, 20], Gallery_batch [3] [10],
         Aggregate (Tensor2 2 [[1, 1], [2, 1], [3, 1]]) [10, 20, 10],
         Query_batch [1] [10], Query_batch [2, 3] [20, 10]],
        Inr (Tensor2 1 [[2], [3], [4]], [10, 20, 10], [10]))"
    by (simp add: get_score_matrix_def get_embeddings_def matmul_transposed_def score_row_def
        dot_def cat_tensor2_def cat_tensor1_def)
  have q: "list_all (\<lambda>(imgs, labels).
       length (rows (get_embeddings None
         \<lparr>training = False,
        forward = \<lambda>imgs. Tensor2 2 (map (\<lambda>i. [int i, 1]) imgs)\<rparr> imgs))
       = length labels)
     [([1::nat], [10::nat]), ([2, 3], [20, 10])]"
    by (simp add: get_embeddings_def)
  have a: "case (Some (\<lambda>e l. (Tensor2 (ncols e) (take 1 (rows e)), take 1 l))) of
             None \<Rightarrow> True
           | Some agg \<Rightarrow>
               (\<forall>e l. length (rows e) = length l \<longrightarrow>
                  length (rows (fst (agg (e :: int tensor2) (l :: nat list))))
                  = length (snd (agg e l)))"
    by simp
  from get_score_matrix_shape[OF h q a]
  have "length (rows (Tensor2 1 [[2], [3], [4::int]])) = length [10, 20, 10::nat] \<and>
        ncols (Tensor2 1 [[2], [3], [4::int]]) = length [10::nat] \<and>
        wf_tensor2 (Tensor2 1 [[2], [3], [4::int]])"
    by blast
  with h q show ?thesis by simp
qed

text \<open>
  Without the two conditions the shape statement fails. Here the aggregation
  function keeps the first gallery embedding and all gallery labels: the run
  returns a score matrix with one column beside two gallery labels.
\<close>

theorem get_score_matrix_shape_counterexample:
  "snd (get_score_matrix
      \<lparr>training = False,
        forward = \<lambda>imgs. Tensor2 2 (map (\<lambda>i. [int i, 1]) imgs)\<rparr>
      [([1, 2::nat], [10, 20::nat])] [([1::nat], [10::nat])]
      (Some (\<lambda>e l. (Tensor2 (ncols e) (take 1 (rows e)), l))) None)
     = Inr (Tensor2 1 [[2]], [10], [10, 20]) \<and>
   ncols (Tensor2 1 [[2::int]]) \<noteq> length [10, 20::nat]"
  by (simp add: get_score_matrix_def get_embeddings_def matmul_transposed_def score_row_def
        dot_def cat_tensor2_def cat_tensor1_def)

end
